theory Spec2Isabelle
  imports Complex_Main
begin

section \<open>The pendulum lamp and its mood state\<close>

text \<open>
  This theory embeds the lamp subsystem of the page script (function \<open>setupLamp\<close> and the
  shared \<open>state\<close> object it writes). JavaScript numbers are modelled as real numbers:
  rounding of IEEE doubles, NaN and the infinities are outside the model. Every handler
  of the script is a function from the closure state to the closure state; values that
  the browser supplies (timestamps, pointer coordinates, layout rectangles, the draws of
  \<open>Math.random\<close>, the behaviour of the Web Audio API) are explicit inputs.

  \<open>setupLamp\<close> returns at once when an element of the lamp is missing or the user prefers
  reduced motion; the theory is about the pages on which it goes on. Of the style
  properties that \<open>frame\<close> writes, the three of the logo are part of the state here; the
  others, the class toggles and the pointer capture change the page only and are left
  out.
\<close>

subsection \<open>Numeric helpers\<close>

definition clamp :: "real \<Rightarrow> real \<Rightarrow> real \<Rightarrow> real" where
  "clamp v a b = max a (min b v)"

definition lerp :: "real \<Rightarrow> real \<Rightarrow> real \<Rightarrow> real" where
  "lerp a b t = a + (b - a) * t"

definition smoothstep :: "real \<Rightarrow> real \<Rightarrow> real \<Rightarrow> real" where
  "smoothstep a b x = (let t = clamp ((x - a) / (b - a)) 0 1 in t * t * (3 - 2 * t))"

text \<open>\<open>Math.hypot\<close> with two arguments, and \<open>Math.atan2\<close> on finite arguments
  (the angle of the point \<open>(x, y)\<close>, in \<open>(-\<pi>, \<pi>]\<close>; signed zeros are not
  distinguished).\<close>

definition hypot :: "real \<Rightarrow> real \<Rightarrow> real" where
  "hypot a b = sqrt (a * a + b * b)"

definition atan2 :: "real \<Rightarrow> real \<Rightarrow> real" where
  "atan2 y x =
     (if 0 < x then arctan (y / x)
      else if x < 0 then (if 0 \<le> y then arctan (y / x) + pi else arctan (y / x) - pi)
      else if 0 < y then pi / 2
      else if y < 0 then - (pi / 2)
      else 0)"

text \<open>\<open>Number.prototype.toFixed\<close> with \<open>d\<close> digits, read back as a number: the nearest
  multiple of \<open>10\<^sup>-\<^sup>d\<close>, ties away from zero.\<close>

definition toFixed :: "nat \<Rightarrow> real \<Rightarrow> real" where
  "toFixed d x = sgn x * of_int \<lfloor>\<bar>x\<bar> * 10 ^ d + 1 / 2\<rfloor> / 10 ^ d"

subsection \<open>Constants of \<open>setupLamp\<close>\<close>

definition BASE_L :: real where "BASE_L = 182"
definition MAX_rad :: real where "MAX_rad = 0.72"
definition OMEGA_MAX :: real where "OMEGA_MAX = 3.6"
definition BASE_BEAM_MAX :: real where "BASE_BEAM_MAX = 520"
definition BEAM_HALF_ANGLE :: real where "BEAM_HALF_ANGLE = 0.44"
definition BASE_PROXIMITY :: real where "BASE_PROXIMITY = 160"
definition BASE_NEAR :: real where "BASE_NEAR = 200"
definition grav :: real where "grav = 10.4"
definition damp :: real where "damp = 0.92"

subsection \<open>The Web Audio calls of the hum synthesizer\<close>

datatype node = Destination | Master | Osc | HumGain | NoiseBuf | Noise | Hp | Lp | NoiseGain

datatype audio_call =
    New_AudioContext
  | Create node
  | Set_value node real
  | Set_type node string
  | Connect node node
  | Fill_buffer
  | Set_buffer
  | Set_loop
  | Start node
  | Set_target node real real real
  | Resume

text \<open>What a handler did: it returned, or an exception left it. Both carry the state at
  that moment, since a thrown exception does not undo earlier assignments.\<close>

datatype 'a outcome = Returned 'a | Thrown 'a

fun result :: "'a outcome \<Rightarrow> 'a" where
  "result (Returned x) = x"
| "result (Thrown x) = x"

fun catch_all :: "'a outcome \<Rightarrow> 'a outcome" where
  "catch_all (Returned x) = Returned x"
| "catch_all (Thrown x) = Returned x"

subsection \<open>State\<close>

text \<open>The shared \<open>state\<close> object (first eight fields), the variables of the
  \<open>setupLamp\<close> closure, the three style properties of the logo, and the log of the
  Web Audio calls made so far. \<open>audio\<close> holds the handle object of the graph, identified
  by the ordinal of its \<open>AudioContext\<close>.\<close>

record lamp =
  anx :: real
  camx :: real
  camy :: real
  blackoutUntil :: real
  spikeUntil :: real
  rippleOff :: bool
  audioStarted :: bool
  audio :: "nat option"
  theta :: real
  omega :: real
  px :: real
  py :: real
  pvx :: real
  pvy :: real
  lastPtT :: real
  pivotX :: real
  pivotY :: real
  lampScale :: real
  scaledL :: real
  scaledBeamMax :: real
  scaledProximity :: real
  scaledNear :: real
  lastScaleCheck :: real
  grabbing :: bool
  grabLastT :: real
  grabLastTheta :: real
  lastT :: real
  logoVis :: real
  logoJx :: real
  logoJy :: real
  calls :: "audio_call list"

subsection \<open>Scale and pivot\<close>

text \<open>\<open>readLampScale\<close>: the argument is the result of \<open>parseFloat\<close>, \<open>None\<close> for NaN.\<close>

definition readLampScale :: "real option \<Rightarrow> real" where
  "readLampScale parsed = (case parsed of None \<Rightarrow> 1 | Some p \<Rightarrow> if p \<le> 0 then 1 else p)"

definition updateLampScale :: "real option \<Rightarrow> lamp \<Rightarrow> lamp" where
  "updateLampScale parsed s =
     (let sc = readLampScale parsed in
      s\<lparr>lampScale := sc,
        scaledL := BASE_L * sc,
        scaledBeamMax := BASE_BEAM_MAX * sc,
        scaledProximity := BASE_PROXIMITY * sc,
        scaledNear := BASE_NEAR * sc\<rparr>)"

text \<open>\<open>recalcPivot\<close>, from the left edge, width and top edge of the lamp's rectangle.\<close>

definition recalcPivot :: "real \<Rightarrow> real \<Rightarrow> real \<Rightarrow> lamp \<Rightarrow> lamp" where
  "recalcPivot rleft rwidth rtop s = s\<lparr>pivotX := rleft + rwidth / 2, pivotY := rtop\<rparr>"

definition resize :: "real \<Rightarrow> real \<Rightarrow> real \<Rightarrow> real option \<Rightarrow> lamp \<Rightarrow> lamp" where
  "resize rleft rwidth rtop parsed s = updateLampScale parsed (recalcPivot rleft rwidth rtop s)"

subsection \<open>Pointer tracking and the angle of the pointer\<close>

definition trackPointer :: "real \<Rightarrow> real \<Rightarrow> real \<Rightarrow> lamp \<Rightarrow> lamp" where
  "trackPointer now clientX clientY s =
     (let dt = max 1 (now - lastPtT s) in
      s\<lparr>pvx := clamp ((clientX - px s) / dt) (- 1.35) 1.35,
        pvy := clamp ((clientY - py s) / dt) (- 1.35) 1.35,
        px := clientX,
        py := clientY,
        lastPtT := now\<rparr>)"

definition angleFromPointer :: "lamp \<Rightarrow> real \<Rightarrow> real \<Rightarrow> real" where
  "angleFromPointer s x y =
     (let dx = x - pivotX s;
          dy = y - pivotY s;
          th = atan2 \<bar>dx\<bar> dy;
          sg = (if dx = 0 then 1 else sgn dx)
      in clamp (th * sg) (- MAX_rad) MAX_rad)"

subsection \<open>The hum synthesizer\<close>

text \<open>The body of the \<open>try\<close> block of \<open>ensureHum\<close>, statement by statement. The calls
  before the two assignments build and start the graph; the last call fades the master
  gain in. \<open>now\<close> is \<open>ctx.currentTime\<close>.\<close>

datatype stmt = Call audio_call | Assign_audioStarted | Assign_audio

definition hum_construction :: "audio_call list" where
  "hum_construction =
     [New_AudioContext,
      Create Master, Set_value Master 0, Connect Master Destination,
      Create Osc, Set_type Osc ''sine'', Set_value Osc 44,
      Create HumGain, Set_value HumGain 0.12,
      Connect Osc HumGain, Connect HumGain Master,
      Create NoiseBuf, Fill_buffer,
      Create Noise, Set_buffer, Set_loop,
      Create Hp, Set_type Hp ''highpass'', Set_value Hp 500,
      Create Lp, Set_type Lp ''lowpass'', Set_value Lp 2400,
      Create NoiseGain, Set_value NoiseGain 0.03,
      Connect Noise Hp, Connect Hp Lp, Connect Lp NoiseGain, Connect NoiseGain Master,
      Start Osc, Start Noise]"

definition hum_body :: "real \<Rightarrow> stmt list" where
  "hum_body now =
     map Call hum_construction @
     [Assign_audioStarted, Assign_audio, Call (Set_target Master 0.05 now 0.05)]"

text \<open>Running a statement list. \<open>f = Some k\<close> says that the call number \<open>k\<close> of this
  run (counted from 0) throws; an assignment to a field of the plain \<open>state\<close> object
  cannot throw. \<open>n\<close> counts the calls already made in this run.\<close>

fun exec_stmts :: "nat option \<Rightarrow> nat \<Rightarrow> stmt list \<Rightarrow> lamp \<Rightarrow> lamp outcome" where
  "exec_stmts f n [] s = Returned s"
| "exec_stmts f n (Call c # cs) s =
     (if f = Some n then Thrown s
      else exec_stmts f (Suc n) cs (s\<lparr>calls := calls s @ [c]\<rparr>))"
| "exec_stmts f n (Assign_audioStarted # cs) s =
     exec_stmts f n cs (s\<lparr>audioStarted := True\<rparr>)"
| "exec_stmts f n (Assign_audio # cs) s =
     exec_stmts f n cs (s\<lparr>audio := Some (count_list (calls s) New_AudioContext)\<rparr>)"

text \<open>The environment of one call of \<open>ensureHum\<close>: whether \<open>window.AudioContext\<close> (or
  its prefixed variant) exists, which call throws if any, and the context's clock.\<close>

record audio_env =
  ac_available :: bool
  throws_at :: "nat option"
  currentTime :: real

definition ensureHum :: "audio_env \<Rightarrow> lamp \<Rightarrow> lamp outcome" where
  "ensureHum e s =
     (if audioStarted s then Returned s
      else if \<not> ac_available e then Returned s
      else catch_all (exec_stmts (throws_at e) 0 (hum_body (currentTime e)) s))"

text \<open>\<open>audioTick\<close>: \<open>suspended\<close> says whether \<open>ctx.state\<close> is \<open>"suspended"\<close>.\<close>

definition audioTick :: "real \<Rightarrow> bool \<Rightarrow> real \<Rightarrow> lamp \<Rightarrow> lamp" where
  "audioTick t suspended now s =
     (if \<not> audioStarted s \<or> audio s = None then s
      else
        let a = anx s;
            blackout = (t < blackoutUntil s);
            vol = 0.02 + a * 0.055
        in s\<lparr>calls := calls s @ (if suspended then [Resume] else []) @
             [Set_target Master (if blackout then vol * 0.35 else vol) now 0.06,
              Set_target Osc (40 + a * 12) now 0.08,
              Set_target NoiseGain (0.02 + a * 0.03) now 0.08]\<rparr>)"

subsection \<open>Grab handlers\<close>

text \<open>The \<open>pointerdown\<close> handler of the hit region. \<open>now1\<close> and \<open>now2\<close> are its two
  readings of \<open>performance.now()\<close>.\<close>

definition pointerdown :: "audio_env \<Rightarrow> real \<Rightarrow> real \<Rightarrow> real \<Rightarrow> lamp \<Rightarrow> lamp outcome" where
  "pointerdown e clientX now1 now2 s =
     (case ensureHum e s of
        Thrown s' \<Rightarrow> Thrown s'
      | Returned s1 \<Rightarrow>
          Returned (s1\<lparr>grabbing := True,
                       grabLastT := now1,
                       grabLastTheta := theta s1,
                       omega := omega s1 + clamp ((clientX - pivotX s1) / 140) (- 1) 1 * 0.75,
                       spikeUntil := now2 + 260\<rparr>))"

text \<open>The \<open>pointermove\<close> handler of the hit region.\<close>

definition grabMove :: "real \<Rightarrow> real \<Rightarrow> real \<Rightarrow> lamp \<Rightarrow> lamp" where
  "grabMove now clientX clientY s =
     (if \<not> grabbing s then s
      else
        let dt = max 1 (now - grabLastT s);
            newTheta = angleFromPointer s clientX clientY;
            w = (newTheta - grabLastTheta s) / (dt / 1000)
        in s\<lparr>omega := clamp (lerp (omega s) w 0.85) (- OMEGA_MAX) OMEGA_MAX,
             theta := newTheta,
             grabLastT := now,
             grabLastTheta := newTheta,
             spikeUntil := now + 120\<rparr>)"

definition endGrab :: "real \<Rightarrow> lamp \<Rightarrow> lamp" where
  "endGrab now s =
     (if \<not> grabbing s then s
      else
        let vx = pvx s * 1000;
            vy = pvy s * 1000;
            rx = px s - pivotX s;
            ry = py s - pivotY s;
            r2 = rx * rx + ry * ry;
            wPtr = (rx * vy - ry * vx) / (r2 + 1 / 1000000);
            omega1 = clamp (omega s + wPtr * 0.28) (- OMEGA_MAX) OMEGA_MAX;
            omega2 = clamp (omega1 * 1.05) (- OMEGA_MAX) OMEGA_MAX
        in s\<lparr>grabbing := False, omega := omega2, spikeUntil := now + 180\<rparr>)"

subsection \<open>The animation frame\<close>

text \<open>The inputs of one call of \<open>frame\<close>: the timestamp, the six draws of
  \<open>Math.random\<close> in the order of the source, the rectangle of the logo, the parsed
  \<open>--lamp-scale\<close> property, and the state and clock of the audio context.\<close>

record frame_in =
  f_t :: real
  f_rnd_blackout :: real
  f_rnd_len :: real
  f_rnd_camx :: real
  f_rnd_camy :: real
  f_rnd_jx :: real
  f_rnd_jy :: real
  f_logo_left :: real
  f_logo_width :: real
  f_logo_top :: real
  f_logo_height :: real
  f_parsed :: "real option"
  f_suspended :: bool
  f_currentTime :: real

definition breeze :: "real \<Rightarrow> real \<Rightarrow> real" where
  "breeze t a = sin (t * 0.0009) * 0.012 * (0.25 + a * 0.9)"

text \<open>The non-grabbing branch for a time step \<open>dt\<close> and a breeze term \<open>br\<close>: the push
  of a near pointer on the angular velocity, then the integration step.\<close>

definition pointer_push :: "lamp \<Rightarrow> real" where
  "pointer_push s =
     (let bulbX = pivotX s + sin (theta s) * scaledL s;
          bulbY = pivotY s + cos (theta s) * scaledL s;
          dxp = px s - bulbX;
          dyp = py s - bulbY;
          dist = hypot dxp dyp
      in if dist < scaledProximity s then
           let proximity = 1 - dist / scaledProximity s;
               tang = (pvx s * - dyp + pvy s * dxp) / (dist + 12)
           in omega s + tang * 0.12 * proximity
         else omega s)"

definition physics :: "real \<Rightarrow> real \<Rightarrow> lamp \<Rightarrow> lamp" where
  "physics dt br s =
     (let omega1 = pointer_push s;
          acc = - grav * sin (theta s) - damp * omega1 + br;
          omega2 = clamp (omega1 + acc * dt) (- OMEGA_MAX) OMEGA_MAX;
          theta2 = clamp (theta s + omega2 * dt) (- MAX_rad) MAX_rad;
          omega3 = (if \<bar>theta2\<bar> > MAX_rad - 1 / 10000 then omega2 * 0.78 else omega2)
      in s\<lparr>theta := theta2, omega := omega3\<rparr>)"

definition frame_physics :: "real \<Rightarrow> lamp \<Rightarrow> lamp" where
  "frame_physics t s =
     (let dt = min 0.03 ((t - lastT s) / 1000);
          s0 = s\<lparr>lastT := t\<rparr>
      in if \<not> grabbing s0 then physics dt (breeze t (anx s0)) s0 else s0)"

definition distToPointer :: "lamp \<Rightarrow> real" where
  "distToPointer s =
     (let bulbX = pivotX s + sin (theta s) * scaledL s;
          bulbY = pivotY s + cos (theta s) * scaledL s
      in hypot (px s - bulbX) (py s - bulbY))"

definition spike_of :: "real \<Rightarrow> lamp \<Rightarrow> real" where
  "spike_of t s = (if t < spikeUntil s then clamp ((spikeUntil s - t) / 260) 0 1 else 0)"

definition anxTarget :: "real \<Rightarrow> lamp \<Rightarrow> real" where
  "anxTarget t s =
     (let near = clamp (1 - distToPointer s / scaledNear s) 0 1;
          spike = spike_of t s;
          speed = clamp (\<bar>omega s\<bar> / OMEGA_MAX) 0 1
      in clamp (0.10 + near * 0.60 + speed * 0.85 + spike * 0.75) 0 1)"

definition frame_anxiety :: "real \<Rightarrow> lamp \<Rightarrow> lamp" where
  "frame_anxiety t s = s\<lparr>anx := lerp (anx s) (anxTarget t s) 0.06\<rparr>"

definition frame_blackout :: "frame_in \<Rightarrow> lamp \<Rightarrow> lamp" where
  "frame_blackout i s =
     (if blackoutUntil s < f_t i \<and> anx s > 0.68 \<and> f_rnd_blackout i < 0.012
      then s\<lparr>blackoutUntil := f_t i + 70 + f_rnd_len i * 140\<rparr>
      else s)"

definition blackout_at :: "real \<Rightarrow> lamp \<Rightarrow> bool" where
  "blackout_at t s = (t < blackoutUntil s)"

definition frame_camera :: "frame_in \<Rightarrow> lamp \<Rightarrow> lamp" where
  "frame_camera i s =
     (let jx = (f_rnd_camx i * 2 - 1) * anx s * 1.6;
          jy = (f_rnd_camy i * 2 - 1) * anx s * 1.1
      in s\<lparr>camx := lerp (camx s) jx 0.12, camy := lerp (camy s) jy 0.12\<rparr>)"

text \<open>The visibility of the logo, from its distance \<open>along\<close> the beam axis and its
  distance \<open>perp\<close> from it.\<close>

definition beam_vis :: "real \<Rightarrow> bool \<Rightarrow> real \<Rightarrow> real \<Rightarrow> real \<Rightarrow> real \<Rightarrow> real" where
  "beam_vis t blackout a beamMax along perp =
     (if along > 0 \<and> along < beamMax then
        let maxPerp = along * tan BEAM_HALF_ANGLE;
            edge = 1 - perp / (maxPerp + 1 / 1000000);
            inside = smoothstep 0 1 edge;
            fadeIn = smoothstep 10 70 along;
            fadeOut = 1 - smoothstep (beamMax - 100) beamMax along;
            flicker = (0.90 + 0.10 * sin (t * (0.010 + a * 0.010))) *
                      (1 - (if blackout then 0.92 else 0))
        in inside * fadeIn * fadeOut * flicker
      else 0)"

text \<open>The same for a logo whose centre is at \<open>(lx, ly)\<close> on the screen.\<close>

definition beam_along :: "lamp \<Rightarrow> real \<Rightarrow> real \<Rightarrow> real" where
  "beam_along s lx ly =
     (let apexX = pivotX s + sin (theta s) * scaledL s;
          apexY = pivotY s + cos (theta s) * scaledL s + 16;
          dirX = sin (theta s);
          dirY = cos (theta s);
          vx = lx - apexX;
          vy = ly - apexY
      in vx * dirX + vy * dirY)"

definition beam_cross :: "lamp \<Rightarrow> real \<Rightarrow> real \<Rightarrow> real" where
  "beam_cross s lx ly =
     (let apexX = pivotX s + sin (theta s) * scaledL s;
          apexY = pivotY s + cos (theta s) * scaledL s + 16;
          dirX = sin (theta s);
          dirY = cos (theta s);
          vx = lx - apexX;
          vy = ly - apexY
      in vx * dirY - vy * dirX)"

definition logo_vis :: "real \<Rightarrow> lamp \<Rightarrow> real \<Rightarrow> real \<Rightarrow> real" where
  "logo_vis t s lx ly =
     beam_vis t (blackout_at t s) (anx s) (scaledBeamMax s)
       (beam_along s lx ly) \<bar>beam_cross s lx ly\<bar>"

text \<open>The jitter of the logo: the values written to \<open>--logoJx\<close> and \<open>--logoJy\<close>, in
  pixels.\<close>

definition logo_jitter :: "real \<Rightarrow> real \<Rightarrow> bool \<Rightarrow> real \<Rightarrow> real \<Rightarrow> real \<times> real" where
  "logo_jitter vis a blackout r1 r2 =
     (if vis > 0.05 \<and> a > 0.2 \<and> \<not> blackout then
        let j = a * vis * 1.8
        in (toFixed 2 ((r1 * 2 - 1) * j), toFixed 2 ((r2 * 2 - 1) * j))
      else (0, 0))"

definition frame_vis :: "frame_in \<Rightarrow> lamp \<Rightarrow> real" where
  "frame_vis i s =
     logo_vis (f_t i) s (f_logo_left i + f_logo_width i / 2) (f_logo_top i + f_logo_height i / 2)"

definition frame_logo :: "frame_in \<Rightarrow> lamp \<Rightarrow> lamp" where
  "frame_logo i s =
     (let vis = frame_vis i s;
          j = logo_jitter vis (anx s) (blackout_at (f_t i) s) (f_rnd_jx i) (f_rnd_jy i)
      in s\<lparr>logoVis := toFixed 3 (clamp vis 0 1), logoJx := fst j, logoJy := snd j\<rparr>)"

definition frame_scale :: "frame_in \<Rightarrow> lamp \<Rightarrow> lamp" where
  "frame_scale i s =
     (if f_t i - lastScaleCheck s > 500
      then (updateLampScale (f_parsed i) s)\<lparr>lastScaleCheck := f_t i\<rparr>
      else s)"

text \<open>The state in which the logo is drawn: after the pendulum, the anxiety, the
  blackout window and the camera have been updated.\<close>

definition frame_mood :: "frame_in \<Rightarrow> lamp \<Rightarrow> lamp" where
  "frame_mood i s =
     frame_camera i (frame_blackout i (frame_anxiety (f_t i) (frame_physics (f_t i) s)))"

definition frame :: "frame_in \<Rightarrow> lamp \<Rightarrow> lamp" where
  "frame i s =
     frame_scale i
       (audioTick (f_t i) (f_suspended i) (f_currentTime i)
          (frame_logo i (frame_mood i s)))"

subsection \<open>Start of the page and the event loop\<close>

text \<open>The state that \<open>setupLamp\<close> leaves: \<open>rnd\<close> is its draw of \<open>Math.random\<close>,
  \<open>now0\<close> and \<open>now1\<close> its two readings of the clock, \<open>ripple\<close> the stored preference
  read before.\<close>

definition setupLamp ::
  "real \<Rightarrow> real \<Rightarrow> real \<Rightarrow> real \<Rightarrow> real \<Rightarrow> real \<Rightarrow> real \<Rightarrow> real option \<Rightarrow> bool \<Rightarrow> lamp" where
  "setupLamp rnd innerWidth now0 now1 rleft rwidth rtop parsed ripple =
     recalcPivot rleft rwidth rtop
       (updateLampScale parsed
          \<lparr>anx = 0, camx = 0, camy = 0, blackoutUntil = 0, spikeUntil = 0,
           rippleOff = ripple, audioStarted = False, audio = None,
           theta = rnd * 0.10 - 0.05, omega = 0,
           px = innerWidth / 2, py = 220, pvx = 0, pvy = 0, lastPtT = now0,
           pivotX = 0, pivotY = 0,
           lampScale = 1, scaledL = BASE_L, scaledBeamMax = BASE_BEAM_MAX,
           scaledProximity = BASE_PROXIMITY, scaledNear = BASE_NEAR, lastScaleCheck = 0,
           grabbing = False, grabLastT = 0, grabLastTheta = 0, lastT = now1,
           logoVis = 0, logoJx = 0, logoJy = 0, calls = []\<rparr>)"

datatype event =
    Resize real real real "real option"
  | Pointer_move real real real
  | Hit_down audio_env real real real
  | Hit_move real real real
  | Hit_up real
  | Frame frame_in

fun handle :: "event \<Rightarrow> lamp \<Rightarrow> lamp" where
  "handle (Resize rleft rwidth rtop parsed) s = resize rleft rwidth rtop parsed s"
| "handle (Pointer_move now x y) s = trackPointer now x y s"
| "handle (Hit_down e x now1 now2) s = result (pointerdown e x now1 now2 s)"
| "handle (Hit_move now x y) s = grabMove now x y s"
| "handle (Hit_up now) s = endGrab now s"
| "handle (Frame i) s = frame i s"

fun run :: "event list \<Rightarrow> lamp \<Rightarrow> lamp" where
  "run [] s = s"
| "run (ev # evs) s = run evs (handle ev s)"

subsection \<open>Notions used in the statements\<close>

text \<open>A run of frames in each of which the anxiety target is 1.\<close>

fun pinned :: "frame_in list \<Rightarrow> lamp \<Rightarrow> bool" where
  "pinned [] s = True"
| "pinned (i # fs) s =
     (anxTarget (f_t i) (frame_physics (f_t i) s) = 1 \<and> pinned fs (frame i s))"

text \<open>The events that call \<open>ensureHum\<close>.\<close>

fun is_down :: "event \<Rightarrow> bool" where
  "is_down (Hit_down e x n1 n2) = True"
| "is_down ev = False"

subsection \<open>A concrete page, for evaluation\<close>

text \<open>A page 800 pixels wide whose lamp rectangle has its left edge at 300, width 200 and
  top edge at 38; the first draw of \<open>Math.random\<close> is one half, so the pendulum starts at
  rest in the vertical, and the bulb is where the pointer is assumed to be.\<close>

definition lamp0 :: lamp where
  "lamp0 = setupLamp 0.5 800 0 0 300 200 38 None False"

text \<open>A frame at time 0 in which the logo is centred 100 pixels below the apex of the
  beam.\<close>

definition frame0 :: frame_in where
  "frame0 = \<lparr>f_t = 0, f_rnd_blackout = 0.5, f_rnd_len = 0.5, f_rnd_camx = 0.5,
     f_rnd_camy = 0.5, f_rnd_jx = 0.75, f_rnd_jy = 0.25, f_logo_left = 350,
     f_logo_width = 100, f_logo_top = 326, f_logo_height = 20, f_parsed = None,
     f_suspended = False, f_currentTime = 0\<rparr>"

text \<open>Three browsers: one in which every audio call succeeds, one in which the sixth
  call of the construction throws, one without the audio subsystem.\<close>

definition env_ok :: audio_env where
  "env_ok = \<lparr>ac_available = True, throws_at = None, currentTime = 0\<rparr>"

definition env_fail :: audio_env where
  "env_fail = \<lparr>ac_available = True, throws_at = Some 5, currentTime = 0\<rparr>"



text \<open>The page after a first pointer-down on the lamp, at the pivot's vertical.\<close>

definition grabbed0 :: lamp where
  "grabbed0 = handle (Hit_down env_ok 400 0 0) lamp0"

subsection \<open>An enclosure of the idle pendulum in scaled integers\<close>

text \<open>A box \<open>(ct, rt, co, ro)\<close> stands for the states with
  \<open>|10\<^sup>1\<^sup>2 * theta - ct| \<le> rt\<close> and \<open>|10\<^sup>1\<^sup>2 * omega - co| \<le> ro\<close>. \<open>settle_step\<close> maps a box
  to a box that holds the image of the first under one integration step with
  \<open>dt = 1/60\<close>, no breeze and a resting pointer; the sine is replaced by its Taylor
  polynomial of degree 5 at the centre, and every rounding goes into the radii.\<close>

type_synonym box = "int \<times> int \<times> int \<times> int"

definition SC :: int where "SC = 10 ^ 12"

definition settle_step :: "box \<Rightarrow> box option" where
  "settle_step b =
     (case b of (ct, rt, co, ro) \<Rightarrow>
        if \<bar>ct\<bar> + rt \<le> 6 * 10 ^ 10 \<and> \<bar>co\<bar> + ro \<le> 10 ^ 12 then
          let sc = ct - ct ^ 3 div (6 * SC ^ 2) + ct ^ 5 div (120 * SC ^ 4);
              co2 = (1477 * co - 260 * sc) div 1500;
              ro2 = (1477 * ro + 260 * (rt + 2)) div 1500 + 2;
              ct2 = ct + co2 div 60;
              rt2 = rt + ro2 div 60 + 2
          in Some (ct2, rt2, co2, ro2)
        else None)"

fun settle_iter :: "nat \<Rightarrow> box \<Rightarrow> box option" where
  "settle_iter 0 b = Some b"
| "settle_iter (Suc n) b = (case settle_step b of None \<Rightarrow> None | Some b' \<Rightarrow> settle_iter n b')"

definition encloses :: "box \<Rightarrow> lamp \<Rightarrow> bool" where
  "encloses b s =
     (case b of (ct, rt, co, ro) \<Rightarrow>
        \<bar>10 ^ 12 * theta s - of_int ct\<bar> \<le> of_int rt \<and>
        \<bar>10 ^ 12 * omega s - of_int co\<bar> \<le> of_int ro \<and>
        pvx s = 0 \<and> pvy s = 0)"

section \<open>Properties\<close>

subsection \<open>Clamping\<close>

lemma clamp_bounds: "a \<le> b \<Longrightarrow> a \<le> clamp v a b \<and> clamp v a b \<le> b"
  by (simp add: clamp_def)

lemma clamp_abs: "0 \<le> b \<Longrightarrow> \<bar>clamp v (- b) b\<bar> \<le> b"
  by (simp add: clamp_def abs_le_iff)

lemma clamp_id: "a \<le> v \<Longrightarrow> v \<le> b \<Longrightarrow> clamp v a b = v"
  by (simp add: clamp_def)

lemma clamp_hi: "a \<le> b \<Longrightarrow> b \<le> v \<Longrightarrow> clamp v a b = b"
  by (simp add: clamp_def)

lemma clamp_lo: "a \<le> b \<Longrightarrow> v \<le> a \<Longrightarrow> clamp v a b = a"
  by (simp add: clamp_def)

subsection \<open>Two bounds on the sine\<close>

lemma sin_lipschitz: "\<bar>sin x - sin y\<bar> \<le> \<bar>x - y\<bar>" for x y :: real
proof -
  have "\<bar>sin x - sin y\<bar> = 2 * \<bar>sin ((x - y) / 2)\<bar> * \<bar>cos ((x + y) / 2)\<bar>"
    by (simp add: sin_diff_sin abs_mult)
  also have "\<dots> \<le> 2 * \<bar>(x - y) / 2\<bar> * 1"
    by (intro mult_mono mult_left_mono abs_sin_x_le_abs_x abs_cos_le_one) simp_all
  also have "\<dots> = \<bar>x - y\<bar>" by simp
  finally show ?thesis .
qed

lemma sin_taylor7: "\<bar>sin x - (x - x ^ 3 / 6 + x ^ 5 / 120)\<bar> \<le> \<bar>x\<bar> ^ 7 / 5040" for x :: real
proof -
  have "(\<Sum>m<7. sin_coeff m * x ^ m) = x - x ^ 3 / 6 + x ^ 5 / 120"
    by (simp add: sin_coeff_def lessThan_nat_numeral fact_numeral)
  then show ?thesis using Maclaurin_sin_bound[of x 7] by (simp add: fact_numeral)
qed

subsection \<open>Which fields a stage writes\<close>

lemma physics_keeps:
  "anx (physics dt br s) = anx s" "grabbing (physics dt br s) = grabbing s"
  "audioStarted (physics dt br s) = audioStarted s" "calls (physics dt br s) = calls s"
  by (simp_all add: physics_def Let_def)

lemma frame_physics_keeps:
  "anx (frame_physics t s) = anx s" "grabbing (frame_physics t s) = grabbing s"
  "audioStarted (frame_physics t s) = audioStarted s" "calls (frame_physics t s) = calls s"
  by (simp_all add: frame_physics_def Let_def physics_keeps)

lemma frame_physics_grabbing:
  "grabbing s \<Longrightarrow> theta (frame_physics t s) = theta s \<and> omega (frame_physics t s) = omega s"
  by (simp add: frame_physics_def Let_def)

lemma frame_mood_keeps:
  "theta (frame_mood i s) = theta (frame_physics (f_t i) s)"
  "omega (frame_mood i s) = omega (frame_physics (f_t i) s)"
  "grabbing (frame_mood i s) = grabbing s"
  "audioStarted (frame_mood i s) = audioStarted s"
  "calls (frame_mood i s) = calls s"
  "anx (frame_mood i s) = lerp (anx s) (anxTarget (f_t i) (frame_physics (f_t i) s)) 0.06"
  by (simp_all add: frame_mood_def frame_camera_def frame_blackout_def frame_anxiety_def Let_def
      frame_physics_keeps)

lemma frame_tail_keeps:
  "theta (frame i s) = theta (frame_mood i s)"
  "omega (frame i s) = omega (frame_mood i s)"
  "anx (frame i s) = anx (frame_mood i s)"
  "blackoutUntil (frame i s) = blackoutUntil (frame_mood i s)"
  "grabbing (frame i s) = grabbing (frame_mood i s)"
  "audioStarted (frame i s) = audioStarted (frame_mood i s)"
  "logoJx (frame i s) = logoJx (frame_logo i (frame_mood i s))"
  "logoJy (frame i s) = logoJy (frame_logo i (frame_mood i s))"
  "logoVis (frame i s) = logoVis (frame_logo i (frame_mood i s))"
  by (simp_all add: frame_def frame_scale_def audioTick_def frame_logo_def Let_def
      updateLampScale_def)

lemma physics_range:
  "\<bar>theta (physics dt br s)\<bar> \<le> MAX_rad" "\<bar>omega (physics dt br s)\<bar> \<le> OMEGA_MAX"
proof -
  define w where "w = clamp (pointer_push s + (- grav * sin (theta s) - damp * pointer_push s + br) * dt)
                 (- OMEGA_MAX) OMEGA_MAX"
  have w: "\<bar>w\<bar> \<le> OMEGA_MAX" unfolding w_def by (rule clamp_abs) (simp add: OMEGA_MAX_def)
  have th: "theta (physics dt br s) = clamp (theta s + w * dt) (- MAX_rad) MAX_rad"
    by (simp add: physics_def Let_def w_def)
  have om: "omega (physics dt br s) =
      (if \<bar>theta (physics dt br s)\<bar> > MAX_rad - 1 / 10000 then w * 0.78 else w)"
    by (simp add: physics_def Let_def w_def)
  show "\<bar>theta (physics dt br s)\<bar> \<le> MAX_rad"
    unfolding th by (rule clamp_abs) (simp add: MAX_rad_def)
  show "\<bar>omega (physics dt br s)\<bar> \<le> OMEGA_MAX"
    using w unfolding om by (auto simp: abs_mult)
qed

lemma frame_range:
  "\<not> grabbing s \<Longrightarrow> \<bar>theta (frame i s)\<bar> \<le> MAX_rad \<and> \<bar>omega (frame i s)\<bar> \<le> OMEGA_MAX"
  using physics_range[of "min 0.03 ((f_t i - lastT s) / 1000)" "breeze (f_t i) (anx s)" "s\<lparr>lastT := f_t i\<rparr>"]
  by (simp add: frame_tail_keeps frame_mood_keeps frame_physics_def Let_def)

lemma exec_stmts_shape:
  "\<exists>c b a. result (exec_stmts f n cs s) = s\<lparr>audioStarted := b, audio := a, calls := c\<rparr>"
proof (induction f n cs s rule: exec_stmts.induct)
  case (1 f n s)
  have "s = s\<lparr>audioStarted := audioStarted s, audio := audio s, calls := calls s\<rparr>" by simp
  then show ?case by (metis exec_stmts.simps(1) result.simps(1))
next
  case (2 f n c cs s)
  show ?case
  proof (cases "f = Some n")
    case True
    have "s = s\<lparr>audioStarted := audioStarted s, audio := audio s, calls := calls s\<rparr>" by simp
    with True show ?thesis by (metis exec_stmts.simps(2) result.simps(2))
  next
    case False
    with 2 obtain c' b a where
      "result (exec_stmts f (Suc n) cs (s\<lparr>calls := calls s @ [c]\<rparr>)) =
         s\<lparr>calls := calls s @ [c], audioStarted := b, audio := a, calls := c'\<rparr>" by blast
    with False show ?thesis by auto
  qed
next
  case (3 f n cs s)
  then obtain c' b a where
    "result (exec_stmts f n cs (s\<lparr>audioStarted := True\<rparr>)) =
       s\<lparr>audioStarted := True, audioStarted := b, audio := a, calls := c'\<rparr>" by blast
  then show ?case by auto
next
  case (4 f n cs s)
  then obtain c' b a where
    "result (exec_stmts f n cs (s\<lparr>audio := Some (count_list (calls s) New_AudioContext)\<rparr>)) =
       s\<lparr>audio := Some (count_list (calls s) New_AudioContext), audioStarted := b, audio := a, calls := c'\<rparr>" by blast
  then show ?case by auto
qed

lemma catch_all_result: "catch_all r = Returned (result r)"
  by (cases r) simp_all

lemma ensureHum_returns: "ensureHum e s = Returned (result (ensureHum e s))"
  by (simp add: ensureHum_def catch_all_result)

lemma ensureHum_shape:
  "\<exists>c b a. result (ensureHum e s) = s\<lparr>audioStarted := b, audio := a, calls := c\<rparr>"
proof -
  have same: "s = s\<lparr>audioStarted := audioStarted s, audio := audio s, calls := calls s\<rparr>" by simp
  show ?thesis
  proof (cases "audioStarted s \<or> \<not> ac_available e")
    case True
    then have "result (ensureHum e s) = s" by (auto simp: ensureHum_def)
    with same show ?thesis by metis
  next
    case False
    then have "result (ensureHum e s) =
        result (exec_stmts (throws_at e) 0 (hum_body (currentTime e)) s)"
      by (simp add: ensureHum_def catch_all_result)
    then show ?thesis using exec_stmts_shape by simp
  qed
qed

lemma ensureHum_keeps:
  "anx (result (ensureHum e s)) = anx s" "omega (result (ensureHum e s)) = omega s"
  "theta (result (ensureHum e s)) = theta s" "pivotX (result (ensureHum e s)) = pivotX s"
proof -
  obtain c b a where "result (ensureHum e s) = s\<lparr>audioStarted := b, audio := a, calls := c\<rparr>"
    using ensureHum_shape by blast
  then show "anx (result (ensureHum e s)) = anx s" "omega (result (ensureHum e s)) = omega s"
    "theta (result (ensureHum e s)) = theta s" "pivotX (result (ensureHum e s)) = pivotX s"
    by simp_all
qed

lemma pointerdown_eq:
  "pointerdown e x n1 n2 s =
     Returned ((result (ensureHum e s))\<lparr>grabbing := True, grabLastT := n1,
        grabLastTheta := theta s,
        omega := omega s + clamp ((x - pivotX s) / 140) (- 1) 1 * 0.75,
        spikeUntil := n2 + 260\<rparr>)"
  unfolding pointerdown_def
  by (subst ensureHum_returns) (simp add: ensureHum_keeps)

lemma handle_anx:
  "anx (handle ev s) =
     (case ev of Frame i \<Rightarrow> lerp (anx s) (anxTarget (f_t i) (frame_physics (f_t i) s)) 0.06
      | _ \<Rightarrow> anx s)"
  by (cases ev)
     (simp_all add: resize_def updateLampScale_def recalcPivot_def Let_def trackPointer_def
        pointerdown_eq ensureHum_keeps grabMove_def endGrab_def frame_tail_keeps frame_mood_keeps)

lemma anxTarget_range: "0 \<le> anxTarget t s \<and> anxTarget t s \<le> 1"
  unfolding anxTarget_def Let_def by (rule clamp_bounds) simp

lemma lerp_range:
  assumes "0 \<le> a" "a \<le> 1" "0 \<le> b" "b \<le> 1"
  shows "0 \<le> lerp a b 0.06 \<and> lerp a b 0.06 \<le> 1"
proof -
  have e: "lerp a b 0.06 = a + (b - a) * (3 / 50)" by (simp add: lerp_def)
  have "0 \<le> a + (b - a) * (3 / 50)" using assms by argo
  moreover have "a + (b - a) * (3 / 50) \<le> 1" using assms by argo
  ultimately show ?thesis by (simp only: e)
qed

lemma handle_anx_range:
  "0 \<le> anx s \<and> anx s \<le> 1 \<Longrightarrow> 0 \<le> anx (handle ev s) \<and> anx (handle ev s) \<le> 1"
  using lerp_range[of "anx s"] anxTarget_range
  unfolding handle_anx by (cases ev) simp_all

lemma run_anx_range:
  "0 \<le> anx s \<and> anx s \<le> 1 \<Longrightarrow> 0 \<le> anx (run evs s) \<and> anx (run evs s) \<le> 1"
proof (induction evs arbitrary: s)
  case Nil then show ?case by simp
next
  case (Cons ev evs)
  from Cons.prems have "0 \<le> anx (handle ev s) \<and> anx (handle ev s) \<le> 1" by (rule handle_anx_range)
  then show ?case using Cons.IH by simp
qed

lemma setupLamp_anx: "anx (setupLamp r w n0 n1 l wd tp p rp) = 0"
  by (simp add: setupLamp_def recalcPivot_def updateLampScale_def Let_def)

subsection \<open>What a start of the synthesizer does\<close>

lemma exec_calls_append:
  "exec_stmts f n (map Call cs @ rest) s =
     (if \<exists>k. f = Some k \<and> n \<le> k \<and> k < n + length cs
      then Thrown (s\<lparr>calls := calls s @ take (the f - n) cs\<rparr>)
      else exec_stmts f (n + length cs) rest (s\<lparr>calls := calls s @ cs\<rparr>))"
proof (induction cs arbitrary: n s)
  case Nil
  then show ?case by auto
next
  case (Cons c cs)
  show ?case
  proof (cases "f = Some n")
    case True
    then show ?thesis by simp
  next
    case False
    then have "(\<exists>k. f = Some k \<and> n \<le> k \<and> k < n + length (c # cs)) =
               (\<exists>k. f = Some k \<and> Suc n \<le> k \<and> k < Suc n + length cs)"
      by (auto simp: le_Suc_eq)
    moreover have "(\<exists>k. f = Some k \<and> Suc n \<le> k \<and> k < Suc n + length cs) \<Longrightarrow>
        take (the f - n) (c # cs) = c # take (the f - Suc n) cs"
      by (auto simp: take_Cons')
    ultimately show ?thesis using False Cons.IH[of "Suc n" "s\<lparr>calls := calls s @ [c]\<rparr>"]
      by auto
  qed
qed

lemma ensureHum_fail:
  assumes "\<not> audioStarted s" "ac_available e" "throws_at e = Some k" "k < length hum_construction"
  shows "ensureHum e s = Returned (s\<lparr>calls := calls s @ take k hum_construction\<rparr>)"
  using assms by (simp add: ensureHum_def hum_body_def exec_calls_append)

lemma ensureHum_ok:
  assumes "\<not> audioStarted s" "ac_available e" "throws_at e = None"
  shows "ensureHum e s =
     Returned (s\<lparr>audioStarted := True,
                 audio := Some (count_list (calls s @ hum_construction) New_AudioContext),
                 calls := calls s @ hum_construction @
                          [Set_target Master 0.05 (currentTime e) 0.05]\<rparr>)"
  using assms by (simp add: ensureHum_def hum_body_def exec_calls_append)



subsection \<open>The concrete page\<close>

lemma lamp0_eq:
  "lamp0 = \<lparr>anx = 0, camx = 0, camy = 0, blackoutUntil = 0, spikeUntil = 0,
           rippleOff = False, audioStarted = False, audio = None,
           theta = 0, omega = 0,
           px = 400, py = 220, pvx = 0, pvy = 0, lastPtT = 0,
           pivotX = 400, pivotY = 38,
           lampScale = 1, scaledL = 182, scaledBeamMax = 520,
           scaledProximity = 160, scaledNear = 200, lastScaleCheck = 0,
           grabbing = False, grabLastT = 0, grabLastTheta = 0, lastT = 0,
           logoVis = 0, logoJx = 0, logoJy = 0, calls = []\<rparr>"
  by (simp add: lamp0_def setupLamp_def recalcPivot_def updateLampScale_def readLampScale_def
      Let_def BASE_L_def BASE_BEAM_MAX_def BASE_PROXIMITY_def BASE_NEAR_def)

lemma lamp0_fields:
  "anx lamp0 = 0" "theta lamp0 = 0" "omega lamp0 = 0" "px lamp0 = 400" "py lamp0 = 220"
  "pvx lamp0 = 0" "pvy lamp0 = 0" "pivotX lamp0 = 400" "pivotY lamp0 = 38"
  "scaledL lamp0 = 182" "scaledNear lamp0 = 200" "scaledProximity lamp0 = 160"
  "scaledBeamMax lamp0 = 520" "spikeUntil lamp0 = 0" "blackoutUntil lamp0 = 0"
  "lastT lamp0 = 0" "lastScaleCheck lamp0 = 0" "grabbing lamp0 = False"
  "audioStarted lamp0 = False" "calls lamp0 = []" "audio lamp0 = None"
  by (simp_all add: lamp0_eq)

subsection \<open>The integration step stays in range\<close>

text \<open>Claim C2. Whatever the time step, the breeze and the push of the pointer, the
  integration step of the non-grabbing branch leaves \<open>theta\<close> within \<open>\<plusminus>MAX\<close> and \<open>omega\<close>
  within \<open>\<plusminus>OMEGA_MAX\<close>; when \<open>theta\<close> ends on its bound, \<open>omega\<close> is 0.78 times the
  clamped angular velocity of this step, that is, 22 percent of it are bled off; and
  both bounds hold after every frame of a lamp that is not grabbed.\<close>

theorem physics_clamped:
  "\<bar>theta (physics dt br s)\<bar> \<le> MAX_rad \<and>
   \<bar>omega (physics dt br s)\<bar> \<le> OMEGA_MAX \<and>
   (\<bar>theta (physics dt br s)\<bar> = MAX_rad \<longrightarrow>
      omega (physics dt br s) =
        0.78 * clamp (pointer_push s + (- grav * sin (theta s) - damp * pointer_push s + br) * dt)
                 (- OMEGA_MAX) OMEGA_MAX) \<and>
   (\<not> grabbing s \<longrightarrow> \<bar>theta (frame i s)\<bar> \<le> MAX_rad \<and> \<bar>omega (frame i s)\<bar> \<le> OMEGA_MAX)"
proof -
  have "omega (physics dt br s) =
      0.78 * clamp (pointer_push s + (- grav * sin (theta s) - damp * pointer_push s + br) * dt)
               (- OMEGA_MAX) OMEGA_MAX"
    if "\<bar>theta (physics dt br s)\<bar> = MAX_rad"
  proof -
    have "\<bar>clamp (theta s +
               clamp (pointer_push s + (- grav * sin (theta s) - damp * pointer_push s + br) * dt)
                 (- OMEGA_MAX) OMEGA_MAX * dt) (- MAX_rad) MAX_rad\<bar> = MAX_rad"
      using that by (simp add: physics_def Let_def)
    then show ?thesis by (simp add: physics_def Let_def MAX_rad_def)
  qed
  then show ?thesis using physics_range[of dt br s] frame_range[of s i] by blast
qed

theorem physics_clamped_witness:
  "\<bar>theta (physics 0.03 0 (lamp0\<lparr>theta := 0.72, omega := 3.6\<rparr>))\<bar> = MAX_rad \<and>
   omega (physics 0.03 0 (lamp0\<lparr>theta := 0.72, omega := 3.6\<rparr>)) =
     0.78 * clamp (3.6 + (- grav * sin 0.72 - damp * 3.6) * 0.03) (- OMEGA_MAX) OMEGA_MAX \<and>
   \<not> grabbing lamp0 \<and>
   \<bar>theta (frame frame0 lamp0)\<bar> \<le> MAX_rad \<and> \<bar>omega (frame frame0 lamp0)\<bar> \<le> OMEGA_MAX"
proof -
  let ?a = "lamp0\<lparr>theta := 0.72, omega := 3.6\<rparr>"
  have pp: "pointer_push ?a = 3.6" by (simp add: pointer_push_def Let_def lamp0_eq)
  define w where "w = clamp (3.6 + (- grav * sin 0.72 - damp * 3.6) * 0.03) (- OMEGA_MAX) OMEGA_MAX"
  define x where "x = sin (0.72::real)"
  have "x \<le> 1" unfolding x_def by (rule sin_le_one)
  then have "0 \<le> 3.6 + (- grav * x - damp * 3.6) * 0.03"
    by (simp add: grav_def damp_def) argo
  then have "0 \<le> 3.6 + (- grav * sin 0.72 - damp * 3.6) * 0.03"
    unfolding x_def .
  then have w0: "0 \<le> w" unfolding w_def clamp_def by (simp add: OMEGA_MAX_def)
  have "theta (physics 0.03 0 ?a) = clamp (0.72 + w * 0.03) (- MAX_rad) MAX_rad"
    unfolding physics_def Let_def pp w_def by simp
  also have "\<dots> = MAX_rad" using w0 by (intro clamp_hi) (simp_all add: MAX_rad_def)
  finally have h: "\<bar>theta (physics 0.03 0 ?a)\<bar> = MAX_rad" by (simp add: MAX_rad_def)
  have g: "\<not> grabbing lamp0" by (simp add: lamp0_fields)
  show ?thesis
    using h g physics_clamped[of "0.03" 0 ?a frame0] physics_clamped[of 0 0 lamp0 frame0]
    unfolding pp by simp
qed

subsection \<open>The beam\<close>

lemma tan_half_angle_pos: "0 < tan BEAM_HALF_ANGLE"
  using pi_ge_two by (intro tan_gt_zero) (simp_all add: BEAM_HALF_ANGLE_def)

lemma smoothstep_le0: "a < b \<Longrightarrow> x \<le> a \<Longrightarrow> smoothstep a b x = 0"
  by (simp add: smoothstep_def Let_def clamp_lo divide_le_0_iff)

lemma smoothstep_ge1: "a < b \<Longrightarrow> b \<le> x \<Longrightarrow> smoothstep a b x = 1"
  by (simp add: smoothstep_def Let_def clamp_hi)

lemma tan_half_angle_ge: "2 / 5 \<le> tan BEAM_HALF_ANGLE"
proof -
  define x :: real where "x = 11 / 25"
  have x: "BEAM_HALF_ANGLE = x" by (simp add: BEAM_HALF_ANGLE_def x_def)
  have "\<bar>sin x - (x - x ^ 3 / 6 + x ^ 5 / 120)\<bar> \<le> \<bar>x\<bar> ^ 7 / 5040" by (rule sin_taylor7)
  then have "x - x ^ 3 / 6 + x ^ 5 / 120 - \<bar>x\<bar> ^ 7 / 5040 \<le> sin x" by linarith
  moreover have "2 / 5 \<le> x - x ^ 3 / 6 + x ^ 5 / 120 - \<bar>x\<bar> ^ 7 / 5040"
    by (simp add: x_def power_divide)
  ultimately have s: "2 / 5 \<le> sin x" by linarith
  have c: "0 < cos x" using pi_ge_two by (intro cos_gt_zero_pi) (simp_all add: x_def)
  have "sin x \<le> sin x / cos x"
    using s c cos_le_one[of x] by (simp add: field_simps mult_left_le)
  then show ?thesis using s unfolding x tan_def by linarith
qed

lemma smoothstep_range: "0 \<le> smoothstep a b x \<and> smoothstep a b x \<le> 1"
proof -
  define t where "t = clamp ((x - a) / (b - a)) 0 1"
  have t: "0 \<le> t" "t \<le> 1" using clamp_bounds[of 0 1 "(x - a) / (b - a)"] by (simp_all add: t_def)
  have 1: "0 \<le> t * t * (3 - 2 * t)" using t by simp
  have "1 - t * t * (3 - 2 * t) = (1 - t) * (1 - t) * (1 + 2 * t)" by (simp add: algebra_simps)
  moreover have "0 \<le> (1 - t) * (1 - t) * (1 + 2 * t)" using t by simp
  ultimately have 2: "t * t * (3 - 2 * t) \<le> 1" by linarith
  show ?thesis using 1 2 by (simp add: smoothstep_def Let_def t_def)
qed

lemma flicker_range:
  "0 \<le> (0.90 + 0.10 * sin z) * (1 - (if bl then 0.92 else 0)) \<and>
   (0.90 + 0.10 * sin z) * (1 - (if bl then 0.92 else 0)) \<le> (1::real)"
proof -
  define w where "w = sin z"
  have s: "- 1 \<le> w" "w \<le> 1" by (simp_all add: w_def)
  define u where "u = 0.90 + 0.10 * sin z"
  have "u = 9 / 10 + w / 10" by (simp add: u_def w_def)
  then have u: "0 \<le> u" "u \<le> 1" using s by argo+
  have k: "0 \<le> u * (2 / 25) \<and> u * (2 / 25) \<le> 1" using u by argo
  have "0 \<le> u * (1 - (if bl then 0.92 else 0)) \<and> u * (1 - (if bl then 0.92 else 0)) \<le> 1"
    using u k by (cases bl) simp_all
  then show ?thesis unfolding u_def .
qed

lemma prod4_le:
  fixes i f g h :: real
  assumes "0 \<le> i" "i \<le> c" "0 \<le> f" "f \<le> 1" "0 \<le> g" "g \<le> 1" "0 \<le> h" "h \<le> 1"
  shows "0 \<le> i * f * g * h \<and> i * f * g * h \<le> c"
proof -
  have 1: "0 \<le> i * f" "i * f \<le> c"
    using assms mult_mono[of i c f 1] by simp_all
  have 2: "0 \<le> i * f * g" "i * f * g \<le> c"
    using 1 assms mult_mono[of "i * f" c g 1] by simp_all
  have 3: "0 \<le> i * f * g * h" "i * f * g * h \<le> c"
    using 2 assms mult_mono[of "i * f * g" c h 1] by simp_all
  show ?thesis using 3 by simp
qed

lemma beam_vis_edge_small:
  assumes "along * tan BEAM_HALF_ANGLE \<le> perp"
  shows "0 \<le> beam_vis t blackout a beamMax along perp \<and>
         beam_vis t blackout a beamMax along perp \<le> 1 / 10 ^ 12"
proof (cases "0 < along \<and> along < beamMax")
  case False
  then have "beam_vis t blackout a beamMax along perp = 0" unfolding beam_vis_def by auto
  then show ?thesis by simp
next
  case True
  define m where "m = along * tan BEAM_HALF_ANGLE"
  define ins where "ins = smoothstep 0 1 (1 - perp / (m + 1 / 1000000))"
  define fi where "fi = smoothstep 10 70 along"
  define fo where "fo = 1 - smoothstep (beamMax - 100) beamMax along"
  define fl where "fl = (0.90 + 0.10 * sin (t * (0.010 + a * 0.010))) *
                      (1 - (if blackout then 0.92 else 0))"
  have v: "beam_vis t blackout a beamMax along perp = ins * fi * fo * fl"
    using True by (simp add: beam_vis_def Let_def ins_def fi_def fo_def fl_def m_def)
  have rfi: "0 \<le> fi" "fi \<le> 1" using smoothstep_range[of 10 70 along] by (simp_all add: fi_def)
  have rfo: "0 \<le> fo" "fo \<le> 1"
    using smoothstep_range[of "beamMax - 100" beamMax along] by (simp_all add: fo_def)
  have rfl: "0 \<le> fl" "fl \<le> 1" using flicker_range unfolding fl_def by blast+
  have rins: "0 \<le> ins" "ins \<le> 1" using smoothstep_range[of 0 1] by (simp_all add: ins_def)
  show ?thesis
  proof (cases "along \<le> 10")
    case True
    then have "fi = 0" unfolding fi_def by (intro smoothstep_le0) simp_all
    then show ?thesis by (simp add: v)
  next
    case False
    then have "10 * (2 / 5) \<le> along * tan BEAM_HALF_ANGLE"
      using tan_half_angle_ge by (intro mult_mono) simp_all
    then have m4: "4 \<le> m" by (simp add: m_def)
    have pm: "m \<le> perp" using assms by (simp add: m_def)
    define e where "e = 1 - perp / (m + 1 / 1000000)"
    have "m / (m + 1 / 1000000) \<le> perp / (m + 1 / 1000000)"
      using pm m4 by (intro divide_right_mono) simp_all
    moreover have "1 - m / (m + 1 / 1000000) = (1 / 1000000) / (m + 1 / 1000000)"
      using m4 by (simp add: field_simps)
    moreover have "(1 / 1000000) / (m + 1 / 1000000) \<le> (1 / 1000000) / 4"
      using m4 by (intro divide_left_mono) simp_all
    ultimately have e: "e \<le> 1 / 4000000" unfolding e_def by linarith
    define c where "c = clamp e 0 1"
    have c: "0 \<le> c" "c \<le> 1 / 4000000"
      using e by (simp_all add: c_def clamp_def)
    have "c * c \<le> (1 / 4000000) * (1 / 4000000)" using c by (intro mult_mono) simp_all
    moreover have "3 - 2 * c \<le> 3" "0 \<le> 3 - 2 * c" using c by simp_all
    ultimately have "c * c * (3 - 2 * c) \<le> (1 / 4000000) * (1 / 4000000) * 3"
      using c by (intro mult_mono) simp_all
    moreover have "ins = c * c * (3 - 2 * c)"
      by (simp add: ins_def smoothstep_def Let_def c_def e_def)
    ultimately have i12: "ins \<le> 1 / 10 ^ 12" by simp
    show ?thesis unfolding v by (rule prod4_le[OF rins(1) i12 rfi rfo rfl])
  qed
qed

lemma toFixed3_tiny: "0 \<le> x \<Longrightarrow> x \<le> 1 / 10 ^ 12 \<Longrightarrow> toFixed 3 (clamp x 0 1) = 0"
proof -
  assume x: "0 \<le> x" "x \<le> 1 / 10 ^ 12"
  then have c: "clamp x 0 1 = x" by (intro clamp_id) simp_all
  have "\<lfloor>\<bar>x\<bar> * 10 ^ 3 + 1 / 2\<rfloor> = 0"
    using x by (intro floor_unique) simp_all
  then show ?thesis by (simp add: toFixed_def c)
qed

text \<open>Claim C3, as the code has it. The visibility is exactly 0 when the logo is behind the
  apex, at or beyond the reach of the beam, or at least one millionth of a pixel outside
  the cone: the source divides by \<open>maxPerp + 1e-6\<close>, so the edge of the cone lies that much
  further out than \<open>along * tan(halfAngle)\<close>. Between the two edges the visibility is at
  most \<open>10\<^sup>-\<^sup>1\<^sup>2\<close>, and the three-digit value written to \<open>--logoVis\<close> is 0.\<close>

theorem beam_vis_zero_outside:
  "(along \<le> 0 \<or> beamMax \<le> along \<or> along * tan BEAM_HALF_ANGLE + 1 / 1000000 \<le> perp \<longrightarrow>
      beam_vis t blackout a beamMax along perp = 0) \<and>
   (along \<le> 0 \<or> beamMax \<le> along \<or> along * tan BEAM_HALF_ANGLE \<le> perp \<longrightarrow>
      0 \<le> beam_vis t blackout a beamMax along perp \<and>
      beam_vis t blackout a beamMax along perp \<le> 1 / 10 ^ 12 \<and>
      toFixed 3 (clamp (beam_vis t blackout a beamMax along perp) 0 1) = 0)"
proof -
  have out: "beam_vis t blackout a beamMax along perp = 0" if "along \<le> 0 \<or> beamMax \<le> along"
    using that unfolding beam_vis_def by auto
  have far: "beam_vis t blackout a beamMax along perp = 0"
    if p: "along * tan BEAM_HALF_ANGLE + 1 / 1000000 \<le> perp" and i: "0 < along \<and> along < beamMax"
  proof -
    have "0 < along * tan BEAM_HALF_ANGLE + 1 / 1000000"
      using i tan_half_angle_pos by (simp add: add_pos_pos)
    with p have "1 - perp / (along * tan BEAM_HALF_ANGLE + 1 / 1000000) \<le> 0" by simp
    then have "smoothstep 0 1 (1 - perp / (along * tan BEAM_HALF_ANGLE + 1 / 1000000)) = 0"
      by (intro smoothstep_le0) simp_all
    then show ?thesis by (simp add: beam_vis_def Let_def)
  qed
  have 1: "beam_vis t blackout a beamMax along perp = 0"
    if "along \<le> 0 \<or> beamMax \<le> along \<or> along * tan BEAM_HALF_ANGLE + 1 / 1000000 \<le> perp"
    using that out far by (cases "0 < along \<and> along < beamMax") auto
  have 2: "0 \<le> beam_vis t blackout a beamMax along perp \<and>
      beam_vis t blackout a beamMax along perp \<le> 1 / 10 ^ 12"
    if "along \<le> 0 \<or> beamMax \<le> along \<or> along * tan BEAM_HALF_ANGLE \<le> perp"
  proof (cases "along \<le> 0 \<or> beamMax \<le> along")
    case True
    then show ?thesis using out by simp
  next
    case False
    with that have "along * tan BEAM_HALF_ANGLE \<le> perp" by blast
    then show ?thesis by (rule beam_vis_edge_small)
  qed
  have 3: "toFixed 3 (clamp (beam_vis t blackout a beamMax along perp) 0 1) = 0"
    if "along \<le> 0 \<or> beamMax \<le> along \<or> along * tan BEAM_HALF_ANGLE \<le> perp"
    using 2[OF that] toFixed3_tiny by blast
  show ?thesis using 1 2 3 by blast
qed

theorem beam_vis_zero_outside_witness:
  "beam_vis 0 False 0 520 100 (100 * tan BEAM_HALF_ANGLE + 1 / 1000000) = 0 \<and>
   beam_vis 0 False 0 520 0 0 = 0 \<and> beam_vis 0 False 0 520 520 0 = 0 \<and>
   beam_vis 0 False 0 520 100 (100 * tan BEAM_HALF_ANGLE) \<le> 1 / 10 ^ 12 \<and>
   toFixed 3 (clamp (beam_vis 0 False 0 520 100 (100 * tan BEAM_HALF_ANGLE)) 0 1) = 0"
  using beam_vis_zero_outside[of 100 520 "100 * tan BEAM_HALF_ANGLE + 1 / 1000000" 0 False 0]
    beam_vis_zero_outside[of 0 520 0 0 False 0] beam_vis_zero_outside[of 520 520 0 0 False 0]
    beam_vis_zero_outside[of 100 520 "100 * tan BEAM_HALF_ANGLE" 0 False 0]
  by simp

text \<open>On the line \<open>perp = along * tan(halfAngle)\<close> itself the visibility is positive, not 0:
  here 100 pixels along the axis, without blackout, at time 0.\<close>

theorem beam_vis_edge_counterexample:
  "100 * tan BEAM_HALF_ANGLE \<le> 100 * tan BEAM_HALF_ANGLE \<and>
   beam_vis 0 False 0 520 100 (100 * tan BEAM_HALF_ANGLE) \<noteq> 0"
proof -
  define m where "m = 100 * tan BEAM_HALF_ANGLE"
  define e where "e = 1 - m / (m + 1 / 1000000)"
  have m: "0 < m" using tan_half_angle_pos by (simp add: m_def)
  have e: "0 < e \<and> e < 1" using m by (simp add: e_def)
  have fi: "smoothstep 10 70 100 = 1" by (intro smoothstep_ge1) simp_all
  have fo: "smoothstep (520 - 100) 520 100 = 0" by (intro smoothstep_le0) simp_all
  have ins: "smoothstep 0 1 e = e * e * (3 - 2 * e)"
    using e by (simp add: smoothstep_def Let_def clamp_id)
  have "0 < e * e * (3 - 2 * e)" using e by simp
  then have "beam_vis 0 False 0 520 100 m \<noteq> 0"
    using fi fo ins e by (simp add: beam_vis_def Let_def m_def[symmetric] e_def[symmetric])
  then show ?thesis by (simp add: m_def)
qed

text \<open>Claim C8. Two logo centres at the same distance \<open>a\<close> along the axis, one at offset
  \<open>p\<close> and one at offset \<open>- p\<close> across it, get the same visibility; the offset enters the
  computation through its absolute value only.\<close>

theorem beam_vis_symmetric:
  "logo_vis t s (pivotX s + sin (theta s) * scaledL s + a * sin (theta s) + p * cos (theta s))
               (pivotY s + cos (theta s) * scaledL s + 16 + a * cos (theta s) - p * sin (theta s))
   = logo_vis t s (pivotX s + sin (theta s) * scaledL s + a * sin (theta s) - p * cos (theta s))
               (pivotY s + cos (theta s) * scaledL s + 16 + a * cos (theta s) + p * sin (theta s))
   \<and> beam_vis t b x m al \<bar>p\<bar> = beam_vis t b x m al \<bar>- p\<bar>"
proof -
  have sc: "sin (theta s) * sin (theta s) + cos (theta s) * cos (theta s) = 1"
    using sin_cos_squared_add[of "theta s"] by (simp add: power2_eq_square)
  have sc': "v * (cos (theta s) * cos (theta s)) + v * (sin (theta s) * sin (theta s)) = v" for v
  proof -
    have "cos (theta s) * cos (theta s) + sin (theta s) * sin (theta s) = 1"
      using sc by linarith
    then have "v * (cos (theta s) * cos (theta s) + sin (theta s) * sin (theta s)) = v"
      by (simp only: mult_1_right)
    then show ?thesis by (simp only: distrib_left)
  qed
  have al: "beam_along s (pivotX s + sin (theta s) * scaledL s + a * sin (theta s) + q * cos (theta s))
               (pivotY s + cos (theta s) * scaledL s + 16 + a * cos (theta s) - q * sin (theta s)) = a" for q
    by (simp add: beam_along_def Let_def algebra_simps sc')
  have cr: "beam_cross s (pivotX s + sin (theta s) * scaledL s + a * sin (theta s) + q * cos (theta s))
               (pivotY s + cos (theta s) * scaledL s + 16 + a * cos (theta s) - q * sin (theta s)) = q" for q
    by (simp add: beam_cross_def Let_def algebra_simps sc')
  show ?thesis using al[of p] al[of "- p"] cr[of p] cr[of "- p"] by (simp add: logo_vis_def)
qed

subsection \<open>The angle of the pointer\<close>

lemma MAX_rad_lt_half_pi: "MAX_rad < pi / 2"
  using pi_ge_two by (simp add: MAX_rad_def)

lemma atan2_upper_half: "0 < y \<Longrightarrow> x \<le> 0 \<Longrightarrow> pi / 2 \<le> atan2 y x"
proof (cases "x = 0")
  case True then show "0 < y \<Longrightarrow> ?thesis" by (simp add: atan2_def)
next
  case False
  assume "0 < y" "x \<le> 0"
  with False have "x < 0" by simp
  have "- (pi / 2) < arctan (y / x)" by (rule arctan_lbound)
  then show ?thesis using \<open>x < 0\<close> \<open>0 < y\<close> by (simp add: atan2_def)
qed

text \<open>Claim C10. \<open>angleFromPointer\<close> stays within \<open>\<plusminus>MAX\<close>; a pointer level with the pivot
  or above it and not on its vertical gives \<open>MAX\<close> with the sign of \<open>dx\<close>; a pointer on the
  pivot gives 0; a pointer straight above the pivot gives \<open>+MAX\<close>.\<close>

theorem angleFromPointer_range:
  "- MAX_rad \<le> angleFromPointer s x y \<and> angleFromPointer s x y \<le> MAX_rad \<and>
   (y - pivotY s \<le> 0 \<and> x - pivotX s \<noteq> 0 \<longrightarrow>
      angleFromPointer s x y = sgn (x - pivotX s) * MAX_rad) \<and>
   (x - pivotX s = 0 \<and> y - pivotY s = 0 \<longrightarrow> angleFromPointer s x y = 0) \<and>
   (x - pivotX s = 0 \<and> y - pivotY s < 0 \<longrightarrow> angleFromPointer s x y = MAX_rad)"
proof -
  have M: "0 < MAX_rad" by (simp add: MAX_rad_def)
  have r: "- MAX_rad \<le> angleFromPointer s x y \<and> angleFromPointer s x y \<le> MAX_rad"
    unfolding angleFromPointer_def Let_def using clamp_bounds[of "- MAX_rad" MAX_rad] M by simp
  have a: "angleFromPointer s x y = sgn (x - pivotX s) * MAX_rad"
    if "y - pivotY s \<le> 0" "x - pivotX s \<noteq> 0"
  proof -
    have h: "pi / 2 \<le> atan2 \<bar>x - pivotX s\<bar> (y - pivotY s)"
      using that by (intro atan2_upper_half) auto
    show ?thesis
    proof (cases "0 < x - pivotX s")
      case True
      then show ?thesis using h MAX_rad_lt_half_pi M
        by (simp add: angleFromPointer_def Let_def clamp_hi)
    next
      case False
      with that have "x - pivotX s < 0" by simp
      then show ?thesis using h MAX_rad_lt_half_pi M
        by (simp add: angleFromPointer_def Let_def clamp_lo)
    qed
  qed
  have b: "angleFromPointer s x y = 0" if "x - pivotX s = 0" "y - pivotY s = 0"
    using that M by (simp add: angleFromPointer_def Let_def atan2_def clamp_def)
  have c: "angleFromPointer s x y = MAX_rad" if "x - pivotX s = 0" "y - pivotY s < 0"
  proof -
    have "atan2 \<bar>x - pivotX s\<bar> (y - pivotY s) = pi" using that by (simp add: atan2_def)
    then show ?thesis using that M pi_ge_two
      by (simp add: angleFromPointer_def Let_def clamp_hi MAX_rad_def)
  qed
  show ?thesis using r a b c by blast
qed

theorem angleFromPointer_range_witness:
  "angleFromPointer lamp0 500 38 = MAX_rad \<and> angleFromPointer lamp0 300 0 = - MAX_rad \<and>
   angleFromPointer lamp0 400 38 = 0 \<and> angleFromPointer lamp0 400 0 = MAX_rad"
  using angleFromPointer_range[of lamp0 500 38] angleFromPointer_range[of lamp0 300 0]
    angleFromPointer_range[of lamp0 400 38] angleFromPointer_range[of lamp0 400 0]
  by (simp add: lamp0_eq)

subsection \<open>Starting the synthesizer\<close>






subsection \<open>The anxiety follows its target\<close>

lemma frame_anx: "anx (frame i s) = lerp (anx s) (anxTarget (f_t i) (frame_physics (f_t i) s)) 0.06"
  by (simp add: frame_tail_keeps frame_mood_keeps)

lemma pinned_run:
  "pinned fs s \<Longrightarrow> anx (run (map Frame fs) s) = 1 - (1 - anx s) * (94 / 100) ^ length fs"
proof (induction fs arbitrary: s)
  case Nil
  then show ?case by simp
next
  case (Cons i fs)
  then have t: "anxTarget (f_t i) (frame_physics (f_t i) s) = 1" and p: "pinned fs (frame i s)"
    by simp_all
  have "anx (frame i s) = anx s + (1 - anx s) * (6 / 100)"
    unfolding frame_anx t by (simp add: lerp_def)
  then have "1 - anx (frame i s) = (1 - anx s) * (94 / 100)" by argo
  then show ?case using Cons.IH[OF p] by simp
qed

lemma pinned_take: "pinned fs s \<Longrightarrow> pinned (take n fs) s"
proof (induction fs arbitrary: s n)
  case Nil
  then show ?case by simp
next
  case (Cons i fs)
  then show ?case by (cases n) simp_all
qed

lemma grabbed0_eq:
  "grabbed0 = lamp0\<lparr>audioStarted := True, audio := Some 1,
       calls := hum_construction @ [Set_target Master 0.05 0 0.05],
       grabbing := True, spikeUntil := 260\<rparr>"
proof -
  have "ensureHum env_ok lamp0 = Returned (lamp0\<lparr>audioStarted := True,
                 audio := Some (count_list (calls lamp0 @ hum_construction) New_AudioContext),
                 calls := calls lamp0 @ hum_construction @
                          [Set_target Master 0.05 (currentTime env_ok) 0.05]\<rparr>)"
    by (rule ensureHum_ok) (simp_all add: lamp0_fields env_ok_def)
  moreover have "count_list hum_construction New_AudioContext = 1"
    by (simp add: hum_construction_def)
  ultimately show ?thesis
    by (simp add: grabbed0_def pointerdown_def lamp0_fields env_ok_def clamp_def lamp0_eq)
qed

lemma frame0_grabbed0_target: "anxTarget 0 (frame_physics 0 grabbed0) = 1"
  by (simp add: grabbed0_eq lamp0_eq frame_physics_def Let_def anxTarget_def distToPointer_def
      hypot_def spike_of_def clamp_def OMEGA_MAX_def)

lemma pinned_grabbed0: "pinned [frame0, frame0\<lparr>f_t := 16\<rparr>] grabbed0"
  by (simp add: frame0_def grabbed0_eq lamp0_eq frame_def frame_scale_def audioTick_def
      frame_logo_def frame_mood_def frame_camera_def frame_blackout_def frame_anxiety_def
      frame_physics_def Let_def anxTarget_def distToPointer_def
      hypot_def spike_of_def clamp_def OMEGA_MAX_def lerp_def)

lemma pinned_strict:
  assumes "pinned fs s" "anx s < 1" "n < m" "m \<le> length fs"
  shows "anx (run (map Frame (take n fs)) s) < anx (run (map Frame (take m fs)) s) \<and>
         anx (run (map Frame (take m fs)) s) < 1"
proof -
  have d: "anx (run (map Frame (take k fs)) s) = 1 - (1 - anx s) * (94 / 100) ^ k"
    if "k \<le> length fs" for k
    using pinned_run[OF pinned_take[OF assms(1), of k]] that by simp
  have q: "(94 / 100 :: real) ^ m < (94 / 100) ^ n"
    using assms(3) by (intro power_strict_decreasing) simp_all
  have z: "0 < 1 - anx s" using assms(2) by simp
  have "(1 - anx s) * (94 / 100) ^ m < (1 - anx s) * (94 / 100) ^ n"
    using q z by (rule mult_strict_left_mono)
  moreover have "0 < (1 - anx s) * (94 / 100) ^ m" using z by simp
  ultimately show ?thesis using d[of n] d[of m] assms(3,4) by simp
qed

text \<open>Claim C1. From the start of the page on and whatever events arrive, \<open>anx\<close> lies in
  \<open>[0, 1]\<close>; it starts at 0; the only handler that writes it is \<open>frame\<close>, by
  \<open>lerp(anx, target, 0.06)\<close> with the clamped target of the source; and over frames whose
  target is 1 the distance of \<open>anx\<close> to 1 shrinks by the factor 0.94 per frame, so \<open>anx\<close> does
  not decrease and does not exceed 1, and it increases strictly while it is below 1.\<close>

theorem anxiety_smoothed:
  "0 \<le> anx (run evs (setupLamp r w n0 n1 l wd tp p rp)) \<and>
   anx (run evs (setupLamp r w n0 n1 l wd tp p rp)) \<le> 1 \<and>
   anx (setupLamp r w n0 n1 l wd tp p rp) = 0 \<and>
   anx (handle ev s) =
     (case ev of
        Frame i \<Rightarrow> lerp (anx s) (anxTarget (f_t i) (frame_physics (f_t i) s)) 0.06
      | _ \<Rightarrow> anx s) \<and>
   anxTarget t s =
     clamp (0.10 + clamp (1 - distToPointer s / scaledNear s) 0 1 * 0.60 +
            clamp (\<bar>omega s\<bar> / OMEGA_MAX) 0 1 * 0.85 + spike_of t s * 0.75) 0 1 \<and>
   (pinned fs s \<and> n \<le> length fs \<longrightarrow>
      anx (run (map Frame (take n fs)) s) = 1 - (1 - anx s) * (94 / 100) ^ n) \<and>
   (pinned fs s \<and> anx s \<le> 1 \<and> n \<le> m \<and> m \<le> length fs \<longrightarrow>
      anx (run (map Frame (take n fs)) s) \<le> anx (run (map Frame (take m fs)) s) \<and>
      anx (run (map Frame (take m fs)) s) \<le> 1) \<and>
   (pinned fs s \<and> anx s < 1 \<and> n < m \<and> m \<le> length fs \<longrightarrow>
      anx (run (map Frame (take n fs)) s) < anx (run (map Frame (take m fs)) s) \<and>
      anx (run (map Frame (take m fs)) s) < 1)"
proof -
  let ?init = "setupLamp r w n0 n1 l wd tp p rp"
  have a: "0 \<le> anx (run evs ?init) \<and> anx (run evs ?init) \<le> 1"
    by (rule run_anx_range) (simp add: setupLamp_anx)
  have b: "anx ?init = 0" by (rule setupLamp_anx)
  have c: "anxTarget t s =
     clamp (0.10 + clamp (1 - distToPointer s / scaledNear s) 0 1 * 0.60 +
            clamp (\<bar>omega s\<bar> / OMEGA_MAX) 0 1 * 0.85 + spike_of t s * 0.75) 0 1"
    by (simp add: anxTarget_def Let_def)
  have d: "anx (run (map Frame (take k fs)) s) = 1 - (1 - anx s) * (94 / 100) ^ k"
    if "pinned fs s" "k \<le> length fs" for k
    using pinned_run[OF pinned_take[OF that(1), of k]] that(2) by simp
  have e: "anx (run (map Frame (take n fs)) s) \<le> anx (run (map Frame (take m fs)) s) \<and>
      anx (run (map Frame (take m fs)) s) \<le> 1"
    if "pinned fs s" "anx s \<le> 1" "n \<le> m" "m \<le> length fs"
  proof -
    have q: "(94 / 100 :: real) ^ m \<le> (94 / 100) ^ n"
      using that(3) by (intro power_decreasing) simp_all
    have z: "0 \<le> 1 - anx s" using that(2) by simp
    have "(1 - anx s) * (94 / 100) ^ m \<le> (1 - anx s) * (94 / 100) ^ n"
      using q z by (rule mult_left_mono)
    moreover have "0 \<le> (1 - anx s) * (94 / 100) ^ m" using z by simp
    ultimately show ?thesis using d[OF that(1), of n] d[OF that(1) that(4)] that(3,4) by simp
  qed
  show ?thesis using a b c d e handle_anx pinned_strict by blast
qed

theorem anxiety_smoothed_witness:
  "pinned [frame0, frame0\<lparr>f_t := 16\<rparr>] grabbed0 \<and>
   anx (run [Frame frame0, Frame (frame0\<lparr>f_t := 16\<rparr>)] grabbed0) = 1 - (94 / 100)\<^sup>2 \<and>
   anx (run [Frame frame0] grabbed0) \<le> anx (run [Frame frame0, Frame (frame0\<lparr>f_t := 16\<rparr>)] grabbed0) \<and>
   anx (run [Frame frame0] grabbed0) < anx (run [Frame frame0, Frame (frame0\<lparr>f_t := 16\<rparr>)] grabbed0) \<and>
   anx (run [Frame frame0, Frame (frame0\<lparr>f_t := 16\<rparr>)] grabbed0) < 1"
proof -
  have a: "anx grabbed0 = 0" by (simp add: grabbed0_eq lamp0_fields)
  show ?thesis
    using pinned_grabbed0
      anxiety_smoothed[where fs = "[frame0, frame0\<lparr>f_t := 16\<rparr>]" and s = grabbed0
        and n = 2 and m = 2]
      anxiety_smoothed[where fs = "[frame0, frame0\<lparr>f_t := 16\<rparr>]" and s = grabbed0
        and n = 1 and m = 2]
    by (simp add: a)
qed

subsection \<open>The jitter of the logo\<close>

lemma frame_logo_jitter:
  "logoJx (frame i s) =
     fst (logo_jitter (frame_vis i (frame_mood i s)) (anx (frame i s))
            (blackout_at (f_t i) (frame i s)) (f_rnd_jx i) (f_rnd_jy i))"
  "logoJy (frame i s) =
     snd (logo_jitter (frame_vis i (frame_mood i s)) (anx (frame i s))
            (blackout_at (f_t i) (frame i s)) (f_rnd_jx i) (f_rnd_jy i))"
  by (simp_all add: frame_tail_keeps blackout_at_def frame_logo_def Let_def)

lemma vis_half: "frame_vis frame0 (frame_mood frame0 (grabbed0\<lparr>anx := 1 / 2\<rparr>)) = 9 / 10"
  by (simp add: frame0_def grabbed0_eq lamp0_eq frame_mood_def frame_camera_def
      frame_blackout_def frame_anxiety_def frame_physics_def Let_def frame_vis_def
      logo_vis_def beam_along_def beam_cross_def blackout_at_def beam_vis_def smoothstep_def
      clamp_def)

lemma anx_half: "anx (frame frame0 (grabbed0\<lparr>anx := 1 / 2\<rparr>)) = 53 / 100"
proof -
  have "anxTarget 0 (frame_physics 0 (grabbed0\<lparr>anx := 1 / 2\<rparr>)) = 1"
    by (simp add: grabbed0_eq lamp0_eq frame_physics_def Let_def anxTarget_def distToPointer_def
      hypot_def spike_of_def clamp_def OMEGA_MAX_def)
  then show ?thesis by (simp add: frame_anx frame0_def lerp_def)
qed

lemma anx_lamp0: "anx (frame frame0 lamp0) \<le> 3 / 50"
proof -
  have "anx (frame frame0 lamp0) = anxTarget 0 (frame_physics 0 lamp0) * (3 / 50)"
    by (simp add: frame_anx frame0_def lerp_def lamp0_fields)
  then show ?thesis using anxTarget_range[of 0 "frame_physics 0 lamp0"] by simp
qed

text \<open>Claim C6. In a frame the two jitter values are 0 unless the visibility exceeds 0.05,
  the anxiety exceeds 0.2 and no blackout is on; in that case they are the two random
  offsets scaled by \<open>anx * vis * 1.8\<close>, rounded to two digits. With anxiety 0 and
  visibility 1 they are 0.\<close>

theorem logo_jitter_reset:
  "(\<not> (frame_vis i (frame_mood i s) > 0.05 \<and> anx (frame i s) > 0.2 \<and>
        \<not> blackout_at (f_t i) (frame i s)) \<longrightarrow>
      logoJx (frame i s) = 0 \<and> logoJy (frame i s) = 0) \<and>
   (frame_vis i (frame_mood i s) > 0.05 \<and> anx (frame i s) > 0.2 \<and>
        \<not> blackout_at (f_t i) (frame i s) \<longrightarrow>
      logoJx (frame i s) =
        toFixed 2 ((f_rnd_jx i * 2 - 1) * (anx (frame i s) * frame_vis i (frame_mood i s) * 1.8)) \<and>
      logoJy (frame i s) =
        toFixed 2 ((f_rnd_jy i * 2 - 1) * (anx (frame i s) * frame_vis i (frame_mood i s) * 1.8))) \<and>
   logo_jitter 1 0 b r1 r2 = (0, 0)"
  unfolding frame_logo_jitter by (simp add: logo_jitter_def Let_def)

theorem logo_jitter_reset_witness:
  "logoJx (frame frame0 lamp0) = 0 \<and> logoJy (frame frame0 lamp0) = 0 \<and>
   logoJx (frame frame0 (grabbed0\<lparr>anx := 1 / 2\<rparr>)) = 43 / 100 \<and>
   logoJy (frame frame0 (grabbed0\<lparr>anx := 1 / 2\<rparr>)) = - (43 / 100)"
proof -
  have b: "\<not> blackout_at (f_t frame0) (frame frame0 (grabbed0\<lparr>anx := 1 / 2\<rparr>))"
    by (simp add: blackout_at_def frame_tail_keeps frame_mood_def frame_camera_def
        frame_blackout_def frame_anxiety_def frame_physics_def Let_def frame0_def grabbed0_eq
        lamp0_eq)
  have r: "f_rnd_jx frame0 = 3 / 4" "f_rnd_jy frame0 = 1 / 4" by (simp_all add: frame0_def)
  show ?thesis
    using logo_jitter_reset[of frame0 lamp0] anx_lamp0
      logo_jitter_reset[of frame0 "grabbed0\<lparr>anx := 1 / 2\<rparr>"] b
    by (simp add: vis_half anx_half r toFixed_def)
qed

subsection \<open>The kick at the start of a grab\<close>

lemma frame_grabbing_omega: "grabbing s \<Longrightarrow> omega (frame i s) = omega s"
  by (simp add: frame_tail_keeps frame_mood_keeps frame_physics_grabbing)

lemma pointerdown_result:
  "result (pointerdown e x n1 n2 s) =
     (result (ensureHum e s))\<lparr>grabbing := True, grabLastT := n1,
        grabLastTheta := theta s,
        omega := omega s + clamp ((x - pivotX s) / 140) (- 1) 1 * 0.75,
        spikeUntil := n2 + 260\<rparr>"
  by (simp add: pointerdown_eq)

lemma handle_omega_range:
  assumes "\<not> is_down ev" "\<bar>omega s\<bar> \<le> OMEGA_MAX"
  shows "\<bar>omega (handle ev s)\<bar> \<le> OMEGA_MAX"
proof (cases ev)
  case (Resize a b c d)
  then show ?thesis using assms(2)
    by (simp add: resize_def updateLampScale_def recalcPivot_def Let_def)
next
  case (Pointer_move a b c)
  then show ?thesis using assms(2) by (simp add: trackPointer_def Let_def)
next
  case (Hit_down e x n1 n2)
  then show ?thesis using assms(1) by simp
next
  case (Hit_move a b c)
  have "0 \<le> OMEGA_MAX" by (simp add: OMEGA_MAX_def)
  then show ?thesis using Hit_move assms(2) clamp_abs[of OMEGA_MAX]
    by (simp add: grabMove_def Let_def)
next
  case (Hit_up a)
  have "0 \<le> OMEGA_MAX" by (simp add: OMEGA_MAX_def)
  then show ?thesis using Hit_up assms(2) clamp_abs[of OMEGA_MAX]
    by (simp add: endGrab_def Let_def)
next
  case (Frame i)
  show ?thesis
  proof (cases "grabbing s")
    case True
    then show ?thesis using Frame assms(2) by (simp add: frame_grabbing_omega)
  next
    case False
    then show ?thesis using Frame frame_range by simp
  qed
qed

text \<open>Claim C9, as the code has it. The pointer-down handler returns and adds the kick to
  \<open>omega\<close> without clamping, so from \<open>|omega| \<le> OMEGA_MAX\<close> it leaves
  \<open>|omega| \<le> OMEGA_MAX + 0.75\<close>. The lamp is then grabbed, and a frame of a grabbed lamp
  skips the physics and leaves \<open>omega\<close> as it is; \<open>omega\<close> is back within \<open>\<plusminus>OMEGA_MAX\<close> after
  the next pointer-move on the hit region or after the release. No other handler takes
  \<open>omega\<close> out of \<open>\<plusminus>OMEGA_MAX\<close>.\<close>

theorem grab_kick_bound:
  assumes "\<bar>omega s\<bar> \<le> OMEGA_MAX"
  shows "pointerdown e x n1 n2 s = Returned (result (pointerdown e x n1 n2 s)) \<and>
    omega (result (pointerdown e x n1 n2 s)) =
      omega s + clamp ((x - pivotX s) / 140) (- 1) 1 * 0.75 \<and>
    \<bar>omega (result (pointerdown e x n1 n2 s))\<bar> \<le> OMEGA_MAX + 0.75 \<and>
    omega (frame i (result (pointerdown e x n1 n2 s))) = omega (result (pointerdown e x n1 n2 s)) \<and>
    \<bar>omega (grabMove n x' y' (result (pointerdown e x n1 n2 s)))\<bar> \<le> OMEGA_MAX \<and>
    \<bar>omega (endGrab n (result (pointerdown e x n1 n2 s)))\<bar> \<le> OMEGA_MAX \<and>
    (\<not> is_down ev \<longrightarrow> \<bar>omega (handle ev s)\<bar> \<le> OMEGA_MAX)"
proof -
  let ?s' = "result (pointerdown e x n1 n2 s)"
  have g: "grabbing ?s'" by (simp add: pointerdown_result)
  have o: "omega ?s' = omega s + clamp ((x - pivotX s) / 140) (- 1) 1 * 0.75"
    by (simp add: pointerdown_result)
  have c: "\<bar>clamp ((x - pivotX s) / 140) (- 1) 1\<bar> \<le> 1" by (rule clamp_abs) simp
  have b: "\<bar>omega ?s'\<bar> \<le> OMEGA_MAX + 0.75" unfolding o using assms c by (simp add: abs_le_iff)
  have M: "0 \<le> OMEGA_MAX" by (simp add: OMEGA_MAX_def)
  have m: "\<bar>omega (grabMove n x' y' ?s')\<bar> \<le> OMEGA_MAX"
    using g clamp_abs[OF M] by (simp add: grabMove_def Let_def)
  have u: "\<bar>omega (endGrab n ?s')\<bar> \<le> OMEGA_MAX"
    using g clamp_abs[OF M] by (simp add: endGrab_def Let_def)
  have h: "\<not> is_down ev \<longrightarrow> \<bar>omega (handle ev s)\<bar> \<le> OMEGA_MAX"
    using handle_omega_range[of ev s] assms by blast
  show ?thesis using g o b m u h frame_grabbing_omega[OF g] by (simp add: pointerdown_eq)
qed

theorem grab_kick_bound_witness:
  "\<bar>omega (lamp0\<lparr>omega := 3.6\<rparr>)\<bar> \<le> OMEGA_MAX \<and>
   omega (result (pointerdown env_ok 540 0 0 (lamp0\<lparr>omega := 3.6\<rparr>))) = 4.35 \<and>
   \<bar>omega (grabMove 16 540 220 (result (pointerdown env_ok 540 0 0 (lamp0\<lparr>omega := 3.6\<rparr>))))\<bar> \<le> OMEGA_MAX \<and>
   \<bar>omega (handle (Frame frame0) (lamp0\<lparr>omega := 3.6\<rparr>))\<bar> \<le> OMEGA_MAX"
proof -
  have h: "\<bar>omega (lamp0\<lparr>omega := 3.6\<rparr>)\<bar> \<le> OMEGA_MAX" by (simp add: OMEGA_MAX_def)
  have p: "pivotX lamp0 = 400" by (simp add: lamp0_eq)
  show ?thesis using h grab_kick_bound[OF h, of env_ok 540 0 0 frame0 16 540 220 "Frame frame0"]
    by (simp add: p clamp_def)
qed

text \<open>The frame after the pointer-down does not bring \<open>omega\<close> back: from 3.6 the kick
  of a pointer 140 pixels right of the pivot gives 4.35, and the frame keeps it.\<close>

theorem grab_kick_frame_counterexample:
  "\<bar>omega (lamp0\<lparr>omega := 3.6\<rparr>)\<bar> \<le> OMEGA_MAX \<and>
   OMEGA_MAX < \<bar>omega (frame frame0 (result (pointerdown env_ok 540 0 0 (lamp0\<lparr>omega := 3.6\<rparr>))))\<bar>"
proof -
  have p: "pivotX lamp0 = 400" by (simp add: lamp0_eq)
  have g: "grabbing (result (pointerdown env_ok 540 0 0 (lamp0\<lparr>omega := 3.6\<rparr>)))"
    by (simp add: pointerdown_result)
  have "omega (frame frame0 (result (pointerdown env_ok 540 0 0 (lamp0\<lparr>omega := 3.6\<rparr>)))) = 4.35"
    unfolding frame_grabbing_omega[OF g] by (simp add: pointerdown_result p clamp_def)
  then show ?thesis by (simp add: OMEGA_MAX_def)
qed

subsection \<open>A failed start of the synthesizer\<close>

lemma handle_audioStarted: "\<not> is_down ev \<Longrightarrow> audioStarted (handle ev s) = audioStarted s"
  by (cases ev)
     (simp_all add: resize_def updateLampScale_def recalcPivot_def Let_def trackPointer_def
        grabMove_def endGrab_def frame_tail_keeps frame_mood_keeps)

lemma run_audioStarted:
  "\<not> (\<exists>ev \<in> set evs. is_down ev) \<Longrightarrow> audioStarted (run evs s) = audioStarted s"
  by (induction evs arbitrary: s) (simp_all add: handle_audioStarted)

lemma down_result_started:
  "audioStarted (result (pointerdown e x n1 n2 s)) = audioStarted (result (ensureHum e s))"
  "calls (result (pointerdown e x n1 n2 s)) = calls (result (ensureHum e s))"
  by (simp_all add: pointerdown_result)

text \<open>Claim C4, as the code has it. After a pointer-down whose construction throws, the
  synthesizer is not started, and it stays so over all events other than a pointer-down;
  the script keeps no record of the failure, so the next pointer-down runs the
  construction again, and if nothing throws then, the synthesizer is started.\<close>

theorem construction_retried:
  assumes "\<not> audioStarted s" "ac_available e" "throws_at e = Some k"
    "k < length hum_construction"
  shows "\<not> audioStarted (handle (Hit_down e x n1 n2) s) \<and>
    calls (handle (Hit_down e x n1 n2) s) = calls s @ take k hum_construction \<and>
    (\<not> (\<exists>ev \<in> set evs. is_down ev) \<longrightarrow>
       \<not> audioStarted (run evs (handle (Hit_down e x n1 n2) s))) \<and>
    (\<not> (\<exists>ev \<in> set evs. is_down ev) \<and> ac_available e' \<and> throws_at e' = None \<longrightarrow>
       audioStarted (handle (Hit_down e' x' m1 m2) (run evs (handle (Hit_down e x n1 n2) s))) \<and>
       calls (handle (Hit_down e' x' m1 m2) (run evs (handle (Hit_down e x n1 n2) s))) =
         calls (run evs (handle (Hit_down e x n1 n2) s)) @ hum_construction @
           [Set_target Master 0.05 (currentTime e') 0.05])"
proof -
  let ?s1 = "handle (Hit_down e x n1 n2) s"
  have a: "\<not> audioStarted ?s1" "calls ?s1 = calls s @ take k hum_construction"
    using assms by (simp_all add: down_result_started ensureHum_fail)
  have b: "\<not> audioStarted (run evs ?s1)" if "\<not> (\<exists>ev \<in> set evs. is_down ev)"
    using run_audioStarted[OF that, of ?s1] a(1) by simp
  have c: "audioStarted (handle (Hit_down e' x' m1 m2) (run evs ?s1)) \<and>
       calls (handle (Hit_down e' x' m1 m2) (run evs ?s1)) =
         calls (run evs ?s1) @ hum_construction @ [Set_target Master 0.05 (currentTime e') 0.05]"
    if "\<not> (\<exists>ev \<in> set evs. is_down ev)" "ac_available e'" "throws_at e' = None"
    using ensureHum_ok[OF b[OF that(1)] that(2,3)] by (simp add: down_result_started)
  show ?thesis using a b c by blast
qed

theorem construction_retried_witness:
  "\<not> audioStarted (handle (Hit_down env_fail 400 0 0) lamp0) \<and>
   \<not> audioStarted (run [Frame frame0] (handle (Hit_down env_fail 400 0 0) lamp0)) \<and>
   audioStarted (handle (Hit_down env_ok 400 16 16)
     (run [Frame frame0] (handle (Hit_down env_fail 400 0 0) lamp0)))"
proof -
  have h: "\<not> audioStarted lamp0" "ac_available env_fail" "throws_at env_fail = Some 5"
    "5 < length hum_construction"
    by (simp_all add: lamp0_fields env_fail_def hum_construction_def)
  show ?thesis
    using construction_retried[OF h, of 400 0 0 "[Frame frame0]" env_ok 400 16 16]
    by (simp add: env_ok_def)
qed

text \<open>A failed start followed by a second pointer-down in a browser where the calls
  succeed: the synthesizer is started, and two audio contexts have been requested.\<close>

theorem no_retry_counterexample:
  "\<not> audioStarted (handle (Hit_down env_fail 400 0 0) lamp0) \<and>
   audioStarted (run [Hit_down env_fail 400 0 0, Hit_down env_ok 400 16 16] lamp0) \<and>
   count_list (calls (run [Hit_down env_fail 400 0 0, Hit_down env_ok 400 16 16] lamp0))
     New_AudioContext = 2"
proof -
  have 1: "ensureHum env_fail lamp0 = Returned (lamp0\<lparr>calls := calls lamp0 @ take 5 hum_construction\<rparr>)"
    by (rule ensureHum_fail) (simp_all add: lamp0_fields env_fail_def hum_construction_def)
  let ?s1 = "result (pointerdown env_fail 400 0 0 lamp0)"
  have s1: "\<not> audioStarted ?s1" "calls ?s1 = take 5 hum_construction"
    by (simp_all add: down_result_started 1 lamp0_fields)
  have 2: "ensureHum env_ok ?s1 = Returned (?s1\<lparr>audioStarted := True,
                 audio := Some (count_list (calls ?s1 @ hum_construction) New_AudioContext),
                 calls := calls ?s1 @ hum_construction @
                          [Set_target Master 0.05 (currentTime env_ok) 0.05]\<rparr>)"
    by (rule ensureHum_ok) (simp_all add: s1 env_ok_def)
  have "audioStarted (result (pointerdown env_ok 400 16 16 ?s1))"
    unfolding down_result_started 2 by simp
  moreover have "count_list (calls (result (pointerdown env_ok 400 16 16 ?s1))) New_AudioContext = 2"
    unfolding down_result_started 2 by (simp add: 1 lamp0_fields hum_construction_def)
  ultimately show ?thesis using s1 by simp
qed

subsection \<open>The idle pendulum settles\<close>

text \<open>The real-number core of one enclosure step; \<open>S\<close> is the scale.\<close>

lemma enclosure_core:
  fixes T W ct rt co ro sc co2 ro2 ct2 rt2 e3 e5 e2 f2 g2 g3 :: real
  defines "S \<equiv> 10 ^ 12"
  defines "th \<equiv> T / S" and "om \<equiv> W / S"
  defines "om2 \<equiv> om + (- (104 / 10) * sin th - (92 / 100) * om) * (1 / 60)"
  defines "th2 \<equiv> th + om2 * (1 / 60)"
  assumes T: "\<bar>T - ct\<bar> \<le> rt" and W: "\<bar>W - co\<bar> \<le> ro"
    and bt: "\<bar>ct\<bar> + rt \<le> 6 * 10 ^ 10" and bo: "\<bar>co\<bar> + ro \<le> 10 ^ 12"
    and e3: "0 \<le> e3" "e3 \<le> 1" and e5: "0 \<le> e5" "e5 \<le> 1"
    and sc: "sc = ct - (ct ^ 3 / (6 * S ^ 2) - e3) + (ct ^ 5 / (120 * S ^ 4) - e5)"
    and e2: "0 \<le> e2" "e2 \<le> 1" and co2: "co2 = (1477 * co - 260 * sc) / 1500 - e2"
    and f2: "0 \<le> f2" "f2 \<le> 1" and ro2: "ro2 = (1477 * ro + 260 * (rt + 2)) / 1500 - f2 + 2"
    and g2: "0 \<le> g2" "g2 \<le> 1" and ct2: "ct2 = ct + (co2 / 60 - g2)"
    and g3: "0 \<le> g3" "g3 \<le> 1" and rt2: "rt2 = rt + (ro2 / 60 - g3) + 2"
  shows "\<bar>S * th2 - ct2\<bar> \<le> rt2" "\<bar>S * om2 - co2\<bar> \<le> ro2"
    "\<bar>om2\<bar> \<le> 36 / 10" "\<bar>th2\<bar> \<le> 7199 / 10000"
proof -
  have S: "0 < S" "S = 10 ^ 12" by (simp_all add: S_def)
  define x where "x = ct / S"
  have Tth: "T = S * th" and Wom: "W = S * om" and ctx: "ct = S * x"
    using S(1) by (simp_all add: th_def om_def x_def)
  have rt0: "0 \<le> rt" using T by linarith
  have ro0: "0 \<le> ro" using W by linarith
  have absT: "\<bar>T\<bar> \<le> 6 * 10 ^ 10" using T bt by linarith
  have absW: "\<bar>W\<bar> \<le> 10 ^ 12" using W bo by linarith
  have "\<bar>th\<bar> = \<bar>T\<bar> / S" using S(1) by (simp add: th_def)
  then have th: "\<bar>th\<bar> \<le> 6 / 100" using absT by (simp add: S(2))
  have "\<bar>om\<bar> = \<bar>W\<bar> / S" using S(1) by (simp add: om_def)
  then have om: "\<bar>om\<bar> \<le> 1" using absW by (simp add: S(2))
  have "\<bar>x\<bar> = \<bar>ct\<bar> / S" using S(1) by (simp add: x_def)
  moreover have "\<bar>ct\<bar> \<le> 6 * 10 ^ 10" using bt rt0 by linarith
  ultimately have x: "\<bar>x\<bar> \<le> 6 / 100" by (simp add: S(2))
  have "\<bar>x\<bar> ^ 7 \<le> (6 / 100) ^ 7" using x by (intro power_mono) simp_all
  then have "S * (\<bar>x\<bar> ^ 7 / 5040) \<le> S * ((6 / 100) ^ 7 / 5040)"
    using S(1) by simp
  also have "\<dots> \<le> 1" by (simp add: S(2) power_divide)
  finally have tay: "S * (\<bar>x\<bar> ^ 7 / 5040) \<le> 1" .
  have "\<bar>S * sin x - S * (x - x ^ 3 / 6 + x ^ 5 / 120)\<bar>
      = S * \<bar>sin x - (x - x ^ 3 / 6 + x ^ 5 / 120)\<bar>"
    using S(1) by (simp add: abs_mult right_diff_distrib[symmetric])
  also have "\<dots> \<le> S * (\<bar>x\<bar> ^ 7 / 5040)"
    using S(1) sin_taylor7[of x] by (intro mult_left_mono) simp_all
  finally have d1: "\<bar>S * sin x - S * (x - x ^ 3 / 6 + x ^ 5 / 120)\<bar> \<le> 1"
    using tay by linarith
  have poly: "S * (x - x ^ 3 / 6 + x ^ 5 / 120) = ct - ct ^ 3 / (6 * S ^ 2) + ct ^ 5 / (120 * S ^ 4)"
    using S(1) by (simp add: x_def eval_nat_numeral field_simps)
  have d2: "\<bar>S * (x - x ^ 3 / 6 + x ^ 5 / 120) - sc\<bar> \<le> 1"
    unfolding poly sc using e3 e5 by linarith
  have "\<bar>S * sin th - S * sin x\<bar> = S * \<bar>sin th - sin x\<bar>"
    using S(1) by (simp add: abs_mult right_diff_distrib[symmetric])
  also have "\<dots> \<le> S * \<bar>th - x\<bar>"
    using S(1) sin_lipschitz[of th x] by (intro mult_left_mono) simp_all
  also have "\<dots> = \<bar>T - ct\<bar>"
    using S(1) by (simp add: Tth ctx abs_mult right_diff_distrib[symmetric])
  finally have d3: "\<bar>S * sin th - S * sin x\<bar> \<le> rt" using T by linarith
  define ss where "ss = S * sin th"
  have ds: "\<bar>ss - sc\<bar> \<le> rt + 2" unfolding ss_def using d1 d2 d3 by linarith
  have Som2: "S * om2 = (1477 * W - 260 * ss) / 1500"
    by (simp add: om2_def Wom ss_def algebra_simps)
  show o2: "\<bar>S * om2 - co2\<bar> \<le> ro2"
    unfolding Som2 co2 ro2 using W ds e2 f2 by argo
  have "\<bar>sin th\<bar> \<le> 1" by simp
  then show b2: "\<bar>om2\<bar> \<le> 36 / 10" unfolding om2_def using om by argo
  have Sth2: "S * th2 = T + S * om2 / 60"
    by (simp add: th2_def Tth algebra_simps)
  show "\<bar>S * th2 - ct2\<bar> \<le> rt2"
    unfolding Sth2 ct2 rt2 using T o2 g2 g3 by argo
  show "\<bar>th2\<bar> \<le> 7199 / 10000" unfolding th2_def using th b2 by argo
qed

lemma pointer_push_still: "pvx s = 0 \<Longrightarrow> pvy s = 0 \<Longrightarrow> pointer_push s = omega s"
  by (simp add: pointer_push_def Let_def)

lemma physics_unclamped:
  fixes s :: lamp
  defines "om2 \<equiv> omega s + (- (104 / 10) * sin (theta s) - (92 / 100) * omega s) * (1 / 60)"
  defines "th2 \<equiv> theta s + om2 * (1 / 60)"
  assumes "pvx s = 0" "pvy s = 0" "\<bar>om2\<bar> \<le> 36 / 10" "\<bar>th2\<bar> \<le> 7199 / 10000"
  shows "theta (physics (1 / 60) 0 s) = th2" "omega (physics (1 / 60) 0 s) = om2"
    "pvx (physics (1 / 60) 0 s) = 0" "pvy (physics (1 / 60) 0 s) = 0"
proof -
  have p: "pointer_push s = omega s" using assms(3,4) by (rule pointer_push_still)
  have o: "clamp (omega s + (- grav * sin (theta s) - damp * omega s + 0) * (1 / 60))
             (- OMEGA_MAX) OMEGA_MAX = om2"
  proof -
    have "omega s + (- grav * sin (theta s) - damp * omega s + 0) * (1 / 60) = om2"
      by (simp add: om2_def grav_def damp_def)
    moreover have "- OMEGA_MAX \<le> om2" "om2 \<le> OMEGA_MAX"
      using assms(5) by (simp_all add: OMEGA_MAX_def abs_le_iff)
    ultimately show ?thesis by (simp add: clamp_id)
  qed
  have t: "clamp (theta s + om2 * (1 / 60)) (- MAX_rad) MAX_rad = th2"
  proof -
    have "- MAX_rad \<le> th2" "th2 \<le> MAX_rad"
      using assms(6) by (simp_all add: MAX_rad_def abs_le_iff)
    then show ?thesis unfolding th2_def[symmetric] by (simp add: clamp_id)
  qed
  have n: "\<not> \<bar>th2\<bar> > MAX_rad - 1 / 10000" using assms(6) by (simp add: MAX_rad_def)
  show "theta (physics (1 / 60) 0 s) = th2" "omega (physics (1 / 60) 0 s) = om2"
    unfolding physics_def Let_def p o t using n by simp_all
  show "pvx (physics (1 / 60) 0 s) = 0" "pvy (physics (1 / 60) 0 s) = 0"
    using assms(3,4) by (simp_all add: physics_def Let_def)
qed

lemma div_err: "0 \<le> real_of_int a / real_of_int b - real_of_int (a div b) \<and>
    real_of_int a / real_of_int b - real_of_int (a div b) \<le> 1"
  using real_of_int_div2[of a b] real_of_int_div3[of a b] by simp

lemma settle_step_sound:
  assumes st: "settle_step b = Some b'" and en: "encloses b s"
  shows "encloses b' (physics (1 / 60) 0 s)"
proof -
  obtain ct rt co ro where b: "b = (ct, rt, co, ro)" by (cases b) auto
  define sc where "sc = ct - ct ^ 3 div (6 * SC ^ 2) + ct ^ 5 div (120 * SC ^ 4)"
  define co2 where "co2 = (1477 * co - 260 * sc) div 1500"
  define ro2 where "ro2 = (1477 * ro + 260 * (rt + 2)) div 1500 + 2"
  define ct2 where "ct2 = ct + co2 div 60"
  define rt2 where "rt2 = rt + ro2 div 60 + 2"
  from st have bd: "\<bar>ct\<bar> + rt \<le> 6 * 10 ^ 10" "\<bar>co\<bar> + ro \<le> 10 ^ 12"
    and b': "b' = (ct2, rt2, co2, ro2)"
    by (auto simp: settle_step_def b Let_def sc_def co2_def ro2_def ct2_def rt2_def
        split: if_splits)
  from en have T: "\<bar>10 ^ 12 * theta s - real_of_int ct\<bar> \<le> real_of_int rt"
    and W: "\<bar>10 ^ 12 * omega s - real_of_int co\<bar> \<le> real_of_int ro"
    and pv: "pvx s = 0" "pvy s = 0"
    by (simp_all add: encloses_def b)
  have "real_of_int (\<bar>ct\<bar> + rt) \<le> real_of_int (6 * 10 ^ 10)"
    using bd(1) by (simp only: of_int_le_iff)
  then have bt: "\<bar>real_of_int ct\<bar> + real_of_int rt \<le> 6 * 10 ^ 10" by simp
  have "real_of_int (\<bar>co\<bar> + ro) \<le> real_of_int (10 ^ 12)"
    using bd(2) by (simp only: of_int_le_iff)
  then have bo: "\<bar>real_of_int co\<bar> + real_of_int ro \<le> 10 ^ 12" by simp
  define e3 where "e3 = real_of_int (ct ^ 3) / real_of_int (6 * SC ^ 2) - real_of_int (ct ^ 3 div (6 * SC ^ 2))"
  define e5 where "e5 = real_of_int (ct ^ 5) / real_of_int (120 * SC ^ 4) - real_of_int (ct ^ 5 div (120 * SC ^ 4))"
  define e2 where "e2 = real_of_int (1477 * co - 260 * sc) / real_of_int 1500 - real_of_int co2"
  define f2 where "f2 = real_of_int (1477 * ro + 260 * (rt + 2)) / real_of_int 1500 - real_of_int ((1477 * ro + 260 * (rt + 2)) div 1500)"
  define g2 where "g2 = real_of_int co2 / real_of_int 60 - real_of_int (co2 div 60)"
  define g3 where "g3 = real_of_int ro2 / real_of_int 60 - real_of_int (ro2 div 60)"
  have e: "0 \<le> e3" "e3 \<le> 1" "0 \<le> e5" "e5 \<le> 1" "0 \<le> e2" "e2 \<le> 1" "0 \<le> f2" "f2 \<le> 1"
    "0 \<le> g2" "g2 \<le> 1" "0 \<le> g3" "g3 \<le> 1"
    unfolding e3_def e5_def e2_def f2_def g2_def g3_def co2_def using div_err by blast+
  have sc: "real_of_int sc = real_of_int ct - (real_of_int ct ^ 3 / (6 * (10 ^ 12) ^ 2) - e3)
        + (real_of_int ct ^ 5 / (120 * (10 ^ 12) ^ 4) - e5)"
    by (simp add: sc_def e3_def e5_def SC_def)
  have co2: "real_of_int co2 = (1477 * real_of_int co - 260 * real_of_int sc) / 1500 - e2"
    by (simp add: e2_def)
  have ro2: "real_of_int ro2 = (1477 * real_of_int ro + 260 * (real_of_int rt + 2)) / 1500 - f2 + 2"
    by (simp add: f2_def ro2_def)
  have ct2: "real_of_int ct2 = real_of_int ct + (real_of_int co2 / 60 - g2)"
    by (simp add: g2_def ct2_def)
  have rt2: "real_of_int rt2 = real_of_int rt + (real_of_int ro2 / 60 - g3) + 2"
    by (simp add: g3_def rt2_def)
  note core = enclosure_core[OF T W bt bo e(1-4) sc e(5,6) co2 e(7,8) ro2 e(9,10) ct2 e(11,12) rt2]
  have th: "10 ^ 12 * theta s / 10 ^ 12 = theta s" and om: "10 ^ 12 * omega s / 10 ^ 12 = omega s"
    by simp_all
  note core' = core[unfolded th om]
  note ph = physics_unclamped[OF pv core'(3) core'(4)]
  show ?thesis
    unfolding encloses_def b' using core'(1,2) ph by simp
qed

lemma settle_iter_sound:
  "settle_iter n b = Some b' \<Longrightarrow> encloses b s \<Longrightarrow>
   encloses b' ((physics (1 / 60) 0 ^^ n) s)"
proof (induction n arbitrary: b s)
  case 0
  then show ?case by simp
next
  case (Suc n)
  from Suc.prems(1) obtain b1 where b1: "settle_step b = Some b1" "settle_iter n b1 = Some b'"
    by (auto split: option.splits)
  have "encloses b1 (physics (1 / 60) 0 s)"
    using b1(1) Suc.prems(2) by (rule settle_step_sound)
  then have "encloses b' ((physics (1 / 60) 0 ^^ n) (physics (1 / 60) 0 s))"
    using Suc.IH[OF b1(2)] by simp
  then show ?case by (simp add: funpow_swap1)
qed

text \<open>Three hundred enclosure steps from the state \<open>theta = 0.05\<close>, \<open>omega = 0\<close>.\<close>

lemma settle_iter_300: "settle_iter 300 (5 * 10 ^ 10, 0, 0, 0) = Some (- 4862557436, 31842996, 4968331913, 87307570)"
  by code_simp

text \<open>Claim C7. From \<open>theta = 0.05\<close> and \<open>omega = 0\<close>, with a resting pointer and without
  breeze, 300 integration steps of the non-grabbing branch with \<open>dt = 1/60\<close> (five
  seconds at 60 Hz) end with \<open>|theta| < 0.01\<close> and \<open>|omega| < 0.01\<close>.\<close>

theorem idle_settle:
  "\<bar>theta ((physics (1 / 60) 0 ^^ 300) (s\<lparr>theta := 0.05, omega := 0, pvx := 0, pvy := 0\<rparr>))\<bar> < 0.01 \<and>
   \<bar>omega ((physics (1 / 60) 0 ^^ 300) (s\<lparr>theta := 0.05, omega := 0, pvx := 0, pvy := 0\<rparr>))\<bar> < 0.01"
proof -
  let ?a = "s\<lparr>theta := 0.05, omega := 0, pvx := 0, pvy := 0\<rparr>"
  let ?z = "(physics (1 / 60) 0 ^^ 300) ?a"
  have "encloses (5 * 10 ^ 10, 0, 0, 0) ?a" by (simp add: encloses_def)
  with settle_iter_300 have "encloses (- 4862557436, 31842996, 4968331913, 87307570) ?z"
    by (rule settle_iter_sound)
  then have t: "\<bar>10 ^ 12 * theta ?z - (- 4862557436)\<bar> \<le> 31842996"
    and o: "\<bar>10 ^ 12 * omega ?z - 4968331913\<bar> \<le> 87307570"
    by (simp_all add: encloses_def)
  define x where "x = theta ?z"
  define y where "y = omega ?z"
  have "\<bar>1000000000000 * x - (- 4862557436)\<bar> \<le> 31842996"
    using t by (simp add: x_def)
  then have "\<bar>x\<bar> < 1 / 100" by argo
  then have 1: "\<bar>theta ?z\<bar> < 0.01" by (simp add: x_def)
  have "\<bar>1000000000000 * y - 4968331913\<bar> \<le> 87307570"
    using o by (simp add: y_def)
  then have "\<bar>y\<bar> < 1 / 100" by argo
  then have 2: "\<bar>omega ?z\<bar> < 0.01" by (simp add: y_def)
  show ?thesis using 1 2 by blast
qed

end
